theory Spec2Isabelle
  imports Main "HOL-Library.Sublist"
begin

section \<open>Strings\<close>

text \<open>
  Source text, paths and identifiers are JavaScript strings. They are modelled as
  \<^typ>\<open>string\<close>, one \<^typ>\<open>char\<close> per code unit (texts whose code units are below 256).
\<close>

text \<open>\<^verbatim>\<open>s.startsWith(p)\<close>\<close>

definition startsWith :: "string \<Rightarrow> string \<Rightarrow> bool" where
  "startsWith s p = (take (length p) s = p)"

text \<open>\<^verbatim>\<open>s.includes(p)\<close>: some position of \<open>s\<close> starts an occurrence of \<open>p\<close>.\<close>

fun includes_str :: "string \<Rightarrow> string \<Rightarrow> bool" where
  "includes_str [] p = (p = [])"
| "includes_str (c # cs) p = (startsWith (c # cs) p \<or> includes_str cs p)"

text \<open>The two notions as the specification words them: a prefix, a contiguous part.\<close>

definition begins_with :: "string \<Rightarrow> string \<Rightarrow> bool" where
  "begins_with s p = (\<exists>rest. s = p @ rest)"

definition contains :: "string \<Rightarrow> string \<Rightarrow> bool" where
  "contains s p = (\<exists>before after. s = before @ p @ after)"

section \<open>Registry exporter: file classification\<close>

text \<open>The field \<^verbatim>\<open>type\<close> of \<^verbatim>\<open>ExportedRegistryFile\<close>.\<close>

datatype registry_file_type = RegistryComponent | RegistryLib | RegistryHook | RegistryPage

text \<open>
  \<^verbatim>\<open>
  function fileTypeForTarget(target: string): ExportedRegistryFile["type"] {
    if (target.startsWith("app/")) return "registry:page";
    if (target.includes("/hooks/") || target.startsWith("hooks/")) return "registry:hook";
    if (target.includes("/lib/") || target.startsWith("lib/") || target.includes("/types/") || target.startsWith("types/")) {
      return "registry:lib";
    }
    return "registry:component";
  }
  \<close>
\<close>

definition fileTypeForTarget :: "string \<Rightarrow> registry_file_type" where
  "fileTypeForTarget target =
     (if startsWith target ''app/'' then RegistryPage
      else if includes_str target ''/hooks/'' \<or> startsWith target ''hooks/'' then RegistryHook
      else if includes_str target ''/lib/'' \<or> startsWith target ''lib/''
              \<or> includes_str target ''/types/'' \<or> startsWith target ''types/'' then RegistryLib
      else RegistryComponent)"

section \<open>Registry catalog\<close>

text \<open>
  \<^verbatim>\<open>RegistryFile\<close> and \<^verbatim>\<open>RegistryItem\<close> of \<^verbatim>\<open>types.ts\<close>. An optional field is an
  \<^typ>\<open>'a option\<close>. The record \<^verbatim>\<open>replaceImports\<close> is kept as the sequence of its
  entries, in the order \<^verbatim>\<open>Object.entries\<close> enumerates them. The field \<^verbatim>\<open>id\<close> is
  \<open>item_id\<close> and \<^verbatim>\<open>name\<close> is \<open>item_name\<close> here.
\<close>

record RegistryFile =
  source :: string
  target :: string
  replaceImports :: "(string \<times> string) list option"

record RegistryItem =
  item_id :: string
  namespace :: string
  item_name :: string
  description :: string
  dependencies :: "string list option"
  registryDependencies :: "string list option"
  files :: "RegistryFile list"

text \<open>\<^verbatim>\<open>items/fumadocs-sdk-layout.ts\<close>\<close>

definition fumadocsSdkLayoutItem :: RegistryItem where
  "fumadocsSdkLayoutItem =
     \<lparr> item_id = ''fumadocs/sdk-layout'',
       namespace = ''fumadocs'',
       item_name = ''sdk-layout'',
       description = ''Interactive SDK docs layout components for Fumadocs pages.'',
       dependencies = Some [''fumadocs-ui'', ''json5''],
       registryDependencies = Some [''combobox''],
       files =
         [ \<lparr> source = ''fumadocs/blocks/sdk-layout/index.ts'',
             target = ''sdk-layout/index.ts'',
             replaceImports = None \<rparr>,
           \<lparr> source = ''fumadocs/blocks/sdk-layout/types/sdk-function-page-types.ts'',
             target = ''sdk-layout/types/sdk-function-page-types.ts'',
             replaceImports = None \<rparr>,
           \<lparr> source = ''fumadocs/blocks/sdk-layout/sections/sdk-section.tsx'',
             target = ''sdk-layout/sections/sdk-section.tsx'',
             replaceImports = Some [(''../../../lib/cn'', ''{utilsAlias}'')] \<rparr>,
           \<lparr> source = ''fumadocs/blocks/sdk-layout/interactive/sdk-function-page-interactive.tsx'',
             target = ''sdk-layout/interactive/sdk-function-page-interactive.tsx'',
             replaceImports = Some
               [(''../../../components/shared/package-manager-tabs'',
                 ''{componentsAlias}/mdx/package-manager-tabs''),
                (''@/components/ui/combobox'', ''{uiAlias}/combobox'')] \<rparr>,
           \<lparr> source = ''fumadocs/components/mdx/package-manager-tabs.tsx'',
             target = ''mdx/package-manager-tabs.tsx'',
             replaceImports = None \<rparr> ] \<rparr>"

text \<open>\<^verbatim>\<open>items/branding-logo-with-badge.ts\<close>, in its version with \<^verbatim>\<open>registryDependencies\<close>.\<close>

definition brandingLogoWithBadgeItem :: RegistryItem where
  "brandingLogoWithBadgeItem =
     \<lparr> item_id = ''branding/logo-with-badge'',
       namespace = ''branding'',
       item_name = ''logo-with-badge'',
       description = ''Brand header row with logo slot, title, and badge text.'',
       dependencies = None,
       registryDependencies = Some [''badge''],
       files =
         [ \<lparr> source = ''branding/components/branding/logo-with-badge.tsx'',
             target = ''components/branding/logo-with-badge.tsx'',
             replaceImports = None \<rparr> ] \<rparr>"

text \<open>
  \<^verbatim>\<open>
  const items: RegistryItem[] = [fumadocsSdkLayoutItem, brandingLogoWithBadgeItem];
  export function listRegistryItems(): RegistryItem[] { return items; }
  export function findRegistryItem(id: string): RegistryItem | null {
    return items.find((item) => item.id === id) ?? null;
  }
  \<close>
  \<^verbatim>\<open>Array.prototype.find\<close> returns the first element that satisfies the predicate, as
  \<^const>\<open>find\<close> does; \<^verbatim>\<open>null\<close> is \<^const>\<open>None\<close>. \<open>findIn\<close> is the search in any list of
  items, \<open>findRegistryItem\<close> the search in \<open>items\<close>.
\<close>

definition items :: "RegistryItem list" where
  "items = [fumadocsSdkLayoutItem, brandingLogoWithBadgeItem]"

definition listRegistryItems :: "RegistryItem list" where
  "listRegistryItems = items"

definition findIn :: "RegistryItem list \<Rightarrow> string \<Rightarrow> RegistryItem option" where
  "findIn catalog ident = find (\<lambda>item. item_id item = ident) catalog"

definition findRegistryItem :: "string \<Rightarrow> RegistryItem option" where
  "findRegistryItem ident = findIn items ident"

section \<open>Paths\<close>

text \<open>
  \<^verbatim>\<open>path.resolve\<close> of Node (POSIX) always returns an absolute path in normal form. Such
  a resolved path is modelled by the list of its segments (type \<open>path\<close>); \<open>path_string\<close>
  is the string Node returns, \<^verbatim>\<open>/\<close> for the root. The working directory of the process,
  \<^verbatim>\<open>process.cwd()\<close>, is a resolved path as well.
\<close>

type_synonym path = "string list"

fun joinSlash :: "string list \<Rightarrow> string" where
  "joinSlash [] = []"
| "joinSlash [s] = s"
| "joinSlash (s # t # ss) = s @ ''/'' @ joinSlash (t # ss)"

definition path_string :: "path \<Rightarrow> string" where
  "path_string p = ''/'' @ joinSlash p"

text \<open>The pieces of a string between its slashes, empty pieces included.\<close>

fun splitSlash :: "string \<Rightarrow> string list" where
  "splitSlash [] = [[]]"
| "splitSlash (c # cs) =
     (if c = CHR ''/'' then [] # splitSlash cs
      else (case splitSlash cs of [] \<Rightarrow> [[c]] | s # ss \<Rightarrow> (c # s) # ss))"

text \<open>
  The normalisation \<^verbatim>\<open>path.resolve\<close> applies to an absolute path: an empty segment and
  \<^verbatim>\<open>.\<close> are dropped, \<^verbatim>\<open>..\<close> removes the segment before it and is dropped at the root.
  The first argument is the stack of the segments kept so far, the last one first.
\<close>

fun normalizeSegments :: "string list \<Rightarrow> string list \<Rightarrow> path" where
  "normalizeSegments stack [] = rev stack"
| "normalizeSegments stack (s # ss) =
     (if s = [] \<or> s = ''.'' then normalizeSegments stack ss
      else if s = ''..'' then normalizeSegments (tl stack) ss
      else normalizeSegments (s # stack) ss)"

text \<open>
  The loop of \<^verbatim>\<open>path.resolve\<close>: the arguments are visited from the last to the first,
  empty ones are skipped, each is put in front of what was collected, and the visit stops
  at the first absolute one; when none is absolute, the working directory of the process
  comes in front.
\<close>

fun resolveJoin :: "string \<Rightarrow> string list \<Rightarrow> string \<Rightarrow> string" where
  "resolveJoin pcwd [] acc = pcwd @ ''/'' @ acc"
| "resolveJoin pcwd (p # ps) acc =
     (if p = [] then resolveJoin pcwd ps acc
      else if hd p = CHR ''/'' then p @ ''/'' @ acc
      else resolveJoin pcwd ps (p @ ''/'' @ acc))"

definition resolve :: "path \<Rightarrow> string list \<Rightarrow> path" where
  "resolve pcwd args =
     normalizeSegments [] (splitSlash (resolveJoin (path_string pcwd) (rev args) []))"

text \<open>
  \<^verbatim>\<open>
  export function resolveAliasPath(alias: string, cwd: string): string {
    if (alias.startsWith("@/")) {
      return resolve(cwd, "src", alias.slice(2));
    }
    if (alias.startsWith("./") || alias.startsWith("../")) {
      return resolve(cwd, alias);
    }
    return resolve(cwd, alias);
  }
  \<close>
  The first argument is the working directory of the process, which \<^verbatim>\<open>resolve\<close> reads.
\<close>

definition resolveAliasPath :: "path \<Rightarrow> string \<Rightarrow> string \<Rightarrow> path" where
  "resolveAliasPath pcwd alias cwd =
     (if startsWith alias ''@/'' then resolve pcwd [cwd, ''src'', drop 2 alias]
      else if startsWith alias ''./'' \<or> startsWith alias ''../'' then resolve pcwd [cwd, alias]
      else resolve pcwd [cwd, alias])"

text \<open>
  The normal form of an absolute path written as a string, as the specification means it
  by \<^verbatim>\<open><cwd>/src/<remainder>\<close>.
\<close>

definition isAbsolute :: "string \<Rightarrow> bool" where
  "isAbsolute s = startsWith s ''/''"

definition normal_form :: "string \<Rightarrow> string" where
  "normal_form s = path_string (normalizeSegments [] (splitSlash s))"

text \<open>A segment that normalisation keeps as it is.\<close>

definition plain_segment :: "string \<Rightarrow> bool" where
  "plain_segment s = (s \<noteq> [] \<and> s \<noteq> ''.'' \<and> s \<noteq> ''..'' \<and> CHR ''/'' \<notin> set s)"

text \<open>
  The directory a relative \<^verbatim>\<open>cwd\<close> argument stands for: \<^verbatim>\<open>path.resolve\<close> puts the
  working directory of the process in front of it.
\<close>

definition anchor :: "path \<Rightarrow> string \<Rightarrow> string" where
  "anchor pcwd cwd = (if isAbsolute cwd then cwd else path_string pcwd @ ''/'' @ cwd)"

section \<open>File system\<close>

text \<open>
  The file system of Node, as far as the program uses it. A node is a regular file with
  its content or a directory; the root always is a directory. Every function of
  \<^verbatim>\<open>node:fs\<close> is called with a resolved path in this repository, so the file system maps
  resolved paths to nodes (no symbolic links). \<open>writes\<close> is the sequence of the
  \<^verbatim>\<open>writeFile\<close> calls that succeeded, in order.
\<close>

datatype node = File string | Dir

record world =
  process_cwd :: path
  nodes :: "path \<Rightarrow> node option"
  writes :: "(path \<times> string) list"

text \<open>
  What a call can throw: \<^verbatim>\<open>new Error(message)\<close> of the source, the error codes of the file
  system, and the \<^verbatim>\<open>SyntaxError\<close> of \<^verbatim>\<open>JSON.parse\<close> and \<^verbatim>\<open>new RegExp\<close>.
\<close>

datatype error = Error string | ENOENT path | EISDIR path | EEXIST path | ENOTDIR path | SyntaxError

definition node_at :: "world \<Rightarrow> path \<Rightarrow> node option" where
  "node_at w p = (if p = [] then Some Dir else nodes w p)"

definition is_file :: "node option \<Rightarrow> bool" where
  "is_file n = (case n of Some (File c) \<Rightarrow> True | _ \<Rightarrow> False)"

text \<open>\<^verbatim>\<open>existsSync(path)\<close>: true for a file and for a directory.\<close>

definition existsSync :: "world \<Rightarrow> path \<Rightarrow> bool" where
  "existsSync w p = (node_at w p \<noteq> None)"

text \<open>\<^verbatim>\<open>readFile(path, "utf8")\<close>\<close>

definition readFile :: "world \<Rightarrow> path \<Rightarrow> error + string" where
  "readFile w p =
     (case node_at w p of
        Some (File c) \<Rightarrow> Inr c
      | Some Dir \<Rightarrow> Inl (EISDIR p)
      | None \<Rightarrow> Inl (ENOENT p))"

text \<open>\<^verbatim>\<open>dirname(path)\<close> of a resolved path: the path without its last segment.\<close>

definition dirname :: "path \<Rightarrow> path" where
  "dirname p = butlast p"

text \<open>
  \<^verbatim>\<open>mkdir(dir, { recursive: true })\<close>: the directory and every missing ancestor are
  created; a directory that exists is left alone; a regular file in the place of \<open>dir\<close>
  or of an ancestor is an error.
\<close>

definition mkdir_recursive :: "world \<Rightarrow> path \<Rightarrow> error + world" where
  "mkdir_recursive w d =
     (case find (\<lambda>q. is_file (node_at w q)) (prefixes d) of
        Some q \<Rightarrow> Inl (if q = d then EEXIST d else ENOTDIR d)
      | None \<Rightarrow> Inr (w\<lparr>nodes := (\<lambda>q. if q \<noteq> [] \<and> prefix q d then Some Dir else nodes w q)\<rparr>))"

text \<open>
  \<^verbatim>\<open>writeFile(path, content, "utf8")\<close>: the file is created or overwritten; the directory
  that holds it must exist, and the path must not be a directory.
\<close>

definition writeFile :: "world \<Rightarrow> path \<Rightarrow> string \<Rightarrow> error + world" where
  "writeFile w p content =
     (case node_at w p of
        Some Dir \<Rightarrow> Inl (EISDIR p)
      | _ \<Rightarrow>
       (case node_at w (dirname p) of
          Some Dir \<Rightarrow> Inr (w\<lparr>nodes := (nodes w)(p \<mapsto> File content),
                             writes := writes w @ [(p, content)]\<rparr>)
        | Some (File c) \<Rightarrow> Inl (ENOTDIR p)
        | None \<Rightarrow> Inl (ENOENT p)))"

section \<open>File materializer\<close>

datatype write_result = Created | Skipped

text \<open>
  \<^verbatim>\<open>
  export async function writeIfMissing(path: string, content: string): Promise<"created" | "skipped"> {
    if (existsSync(path)) return "skipped";
    await mkdir(dirname(path), { recursive: true });
    await writeFile(path, content, "utf8");
    return "created";
  }
  \<close>
  The result is paired with the file system the call leaves behind, also when it throws.
\<close>

definition writeIfMissing :: "world \<Rightarrow> path \<Rightarrow> string \<Rightarrow> (error + write_result) \<times> world" where
  "writeIfMissing w p content =
     (if existsSync w p then (Inr Skipped, w)
      else (case mkdir_recursive w (dirname p) of
              Inl e \<Rightarrow> (Inl e, w)
            | Inr w1 \<Rightarrow>
               (case writeFile w1 p content of
                  Inl e \<Rightarrow> (Inl e, w1)
                | Inr w2 \<Rightarrow> (Inr Created, w2))))"

section \<open>Replacing matches in a string\<close>

abbreviation sq :: char where "sq \<equiv> CHR 0x27"
abbreviation dq :: char where "dq \<equiv> CHR 0x22"

text \<open>
  The patterns the program searches for match a fixed number of characters, one pattern
  character each: a literal character, the dot of a regular expression (any character
  but a line terminator), or a class such as \<^verbatim>\<open>['"]\<close>.
\<close>

datatype atom = Lit char | AnyChar | OneOf "char list"

fun atom_matches :: "atom \<Rightarrow> char \<Rightarrow> bool" where
  "atom_matches (Lit c) x = (x = c)"
| "atom_matches AnyChar x = (x \<noteq> CHR 0x0A \<and> x \<noteq> CHR 0x0D)"
| "atom_matches (OneOf cs) x = (x \<in> set cs)"

text \<open>The pattern matches at the start of the text.\<close>

fun matchesAt :: "atom list \<Rightarrow> string \<Rightarrow> bool" where
  "matchesAt [] s = True"
| "matchesAt (a # as) [] = False"
| "matchesAt (a # as) (c # cs) = (atom_matches a c \<and> matchesAt as cs)"

text \<open>
  \<^verbatim>\<open>GetSubstitution\<close> of ECMAScript for a match without capture groups: in the replacement
  text \<^verbatim>\<open>$$\<close> stands for a dollar sign, \<^verbatim>\<open>$&\<close> for the matched text, \<^verbatim>\<open>$`\<close> for the text
  before the match and \<^verbatim>\<open>$'\<close> for the text after it; every other character, a dollar
  sign included, stands for itself.
\<close>

fun getSubstitution :: "string \<Rightarrow> string \<Rightarrow> string \<Rightarrow> string \<Rightarrow> string" where
  "getSubstitution matched scanned following [] = []"
| "getSubstitution matched scanned following [c] = [c]"
| "getSubstitution matched scanned following (c # d # rest) =
     (if c = CHR ''$'' \<and> d = CHR ''$'' then CHR ''$'' # getSubstitution matched scanned following rest
      else if c = CHR ''$'' \<and> d = CHR ''&'' then matched @ getSubstitution matched scanned following rest
      else if c = CHR ''$'' \<and> d = CHR 0x60 then scanned @ getSubstitution matched scanned following rest
      else if c = CHR ''$'' \<and> d = sq then following @ getSubstitution matched scanned following rest
      else c # getSubstitution matched scanned following (d # rest))"

text \<open>
  A global replacement (\<^verbatim>\<open>String.prototype.replace\<close> with a regular expression that has
  the flag \<^verbatim>\<open>g\<close>, and \<^verbatim>\<open>String.prototype.replaceAll\<close> with a string): the text is
  scanned from the left, every match is replaced by the substitution computed from the
  original text, and the scan goes on after the match. \<open>scanned\<close> is the text already
  scanned. An empty pattern matches before every character and at the end.
\<close>

function replaceGlobal :: "atom list \<Rightarrow> string \<Rightarrow> string \<Rightarrow> string \<Rightarrow> string" where
  "replaceGlobal atoms replacement scanned rest =
     (if matchesAt atoms rest then
        (if atoms = [] then
           (case rest of
              [] \<Rightarrow> getSubstitution [] scanned rest replacement
            | c # cs \<Rightarrow> getSubstitution [] scanned rest replacement
                         @ c # replaceGlobal atoms replacement (scanned @ [c]) cs)
         else getSubstitution (take (length atoms) rest) scanned (drop (length atoms) rest) replacement
                @ replaceGlobal atoms replacement (scanned @ take (length atoms) rest)
                    (drop (length atoms) rest))
      else (case rest of
              [] \<Rightarrow> []
            | c # cs \<Rightarrow> c # replaceGlobal atoms replacement (scanned @ [c]) cs))"
  by pat_completeness auto
termination
proof (relation "measure (\<lambda>(atoms, replacement, scanned, rest). length rest)")
  show "wf (measure (\<lambda>(atoms, replacement, scanned, rest). length rest))" by simp
next
  fix atoms :: "atom list" and replacement scanned rest :: string
  assume "matchesAt atoms rest" and "atoms \<noteq> []"
  then have "rest \<noteq> []" by (cases atoms; cases rest) auto
  with \<open>atoms \<noteq> []\<close>
  show "((atoms, replacement, scanned @ take (length atoms) rest, drop (length atoms) rest),
         (atoms, replacement, scanned, rest)) \<in> measure (\<lambda>(atoms, replacement, scanned, rest). length rest)"
    by simp
qed simp_all

declare replaceGlobal.simps [simp del]

text \<open>\<^verbatim>\<open>text.replaceAll(search, replacement)\<close> with a string to search for.\<close>

definition replaceAll :: "string \<Rightarrow> string \<Rightarrow> string \<Rightarrow> string" where
  "replaceAll s search replacement = replaceGlobal (map Lit search) replacement [] s"

section \<open>Import rewriter\<close>

text \<open>
  The characters with a meaning of their own in the source of a regular expression:
  \<^verbatim>\<open>^ $ \ . * + ? ( ) [ ] { } |\<close>. Any other character of a pattern matches itself.
\<close>

definition syntaxCharacter :: "char \<Rightarrow> bool" where
  "syntaxCharacter c = (c \<in> set (''^$.*+?()[]{}|'' @ [CHR 0x5C]))"

text \<open>
  The key of a mapping is put into the regular expression as it is. A key made of
  ordinary characters and dots compiles to one pattern character per character, the dot
  to \<open>AnyChar\<close>. A key with another syntax character (a quantifier, a group, a class, an
  escape) is outside this fragment.
\<close>

definition compileKey :: "string \<Rightarrow> atom list option" where
  "compileKey key =
     (if list_ex (\<lambda>c. syntaxCharacter c \<and> c \<noteq> CHR ''.'') key then None
      else Some (map (\<lambda>c. if c = CHR ''.'' then AnyChar else Lit c) key))"

text \<open>The expression \<^verbatim>\<open>from ['"]<key>['"]\<close> for a compiled key.\<close>

definition importPattern :: "atom list \<Rightarrow> atom list" where
  "importPattern key = map Lit ''from '' @ [OneOf [sq, dq]] @ key @ [OneOf [sq, dq]]"

text \<open>
  \<^verbatim>\<open>next.replace(new RegExp(`from ['\"]${from}['\"]`, "g"), `from '${to}'`)\<close>. The
  parameter \<open>engine\<close> is the behaviour of the regular expressions outside the fragment
  above, from the source of the expression, the text and the replacement text; it can
  throw, as \<^verbatim>\<open>new RegExp\<close> does for an expression that is not well formed.
\<close>

type_synonym regexp_engine = "string \<Rightarrow> string \<Rightarrow> string \<Rightarrow> error + string"

definition replaceImport :: "regexp_engine \<Rightarrow> string \<Rightarrow> string \<Rightarrow> string \<Rightarrow> error + string" where
  "replaceImport engine next from to =
     (case compileKey from of
        Some key \<Rightarrow> Inr (replaceGlobal (importPattern key) (''from '' @ [sq] @ to @ [sq]) [] next)
      | None \<Rightarrow> engine (''from ['' @ [sq, dq] @ '']'' @ from @ ''['' @ [sq, dq] @ '']'') next
                  (''from '' @ [sq] @ to @ [sq]))"

text \<open>
  \<^verbatim>\<open>
  export function applyImportReplacements(content: string, replaceImports: Record<string, string> | undefined): string {
    if (!replaceImports) return content;
    let next = content;
    for (const [from, to] of Object.entries(replaceImports)) {
      next = next.replace(new RegExp(`from ['\"]${from}['\"]`, "g"), `from '${to}'`);
    }
    return next;
  }
  \<close>
\<close>

fun replaceEntries :: "regexp_engine \<Rightarrow> string \<Rightarrow> (string \<times> string) list \<Rightarrow> error + string" where
  "replaceEntries engine next [] = Inr next"
| "replaceEntries engine next ((from, to) # entries) =
     (case replaceImport engine next from to of
        Inl e \<Rightarrow> Inl e
      | Inr next' \<Rightarrow> replaceEntries engine next' entries)"

definition applyImportReplacements ::
  "regexp_engine \<Rightarrow> string \<Rightarrow> (string \<times> string) list option \<Rightarrow> error + string" where
  "applyImportReplacements engine content mapping =
     (case mapping of
        None \<Rightarrow> Inr content
      | Some entries \<Rightarrow> replaceEntries engine content entries)"

section \<open>Alias resolver\<close>

text \<open>\<^verbatim>\<open>ComponentsConfig\<close> and \<^verbatim>\<open>AliasContext\<close> of \<^verbatim>\<open>types.ts\<close>.\<close>

record ConfigAliases =
  components :: "string option"
  ui :: "string option"
  utils :: "string option"

record ComponentsConfig =
  aliases :: "ConfigAliases option"

record AliasContext =
  componentsAlias :: string
  uiAlias :: string
  utilsAlias :: string

text \<open>
  \<^verbatim>\<open>
  export function interpolateTargetPath(template: string, aliases: AliasContext): string {
    return template
      .replaceAll("{componentsAlias}", aliases.componentsAlias)
      .replaceAll("{uiAlias}", aliases.uiAlias)
      .replaceAll("{utilsAlias}", aliases.utilsAlias);
  }
  \<close>
\<close>

definition interpolateTargetPath :: "string \<Rightarrow> AliasContext \<Rightarrow> string" where
  "interpolateTargetPath template ctx =
     replaceAll (replaceAll (replaceAll template ''{componentsAlias}'' (componentsAlias ctx))
       ''{uiAlias}'' (uiAlias ctx)) ''{utilsAlias}'' (utilsAlias ctx)"

text \<open>
  \<^verbatim>\<open>
  export async function readAliasContext(cwd: string): Promise<{ aliases: AliasContext; componentsRoot: string }> {
    const componentsJsonPath = resolve(cwd, "components.json");
    if (!existsSync(componentsJsonPath)) {
      throw new Error("Missing components.json in current directory. Run shadcn init first.");
    }
    const rawConfig = await readFile(componentsJsonPath, "utf8");
    const config = JSON.parse(rawConfig) as ComponentsConfig;
    const aliases: AliasContext = {
      componentsAlias: config.aliases?.components ?? "@/components",
      uiAlias: config.aliases?.ui ?? "@/components/ui",
      utilsAlias: config.aliases?.utils ?? "@/lib/utils",
    };
    return { aliases, componentsRoot: resolveAliasPath(aliases.componentsAlias, cwd) };
  }
  \<close>
  The parameter \<open>parse\<close> is \<^verbatim>\<open>JSON.parse\<close> followed by the cast to \<^verbatim>\<open>ComponentsConfig\<close>;
  it throws on a text that is not JSON. \<open>orElse\<close> is the operator \<^verbatim>\<open>??\<close>, and
  \<^const>\<open>Option.bind\<close> the optional chaining \<^verbatim>\<open>?.\<close>.
\<close>

definition orElse :: "'a option \<Rightarrow> 'a \<Rightarrow> 'a" where
  "orElse v d = (case v of None \<Rightarrow> d | Some x \<Rightarrow> x)"

definition readAliasContext ::
  "(string \<Rightarrow> error + ComponentsConfig) \<Rightarrow> world \<Rightarrow> string \<Rightarrow> error + (AliasContext \<times> path)" where
  "readAliasContext parse w cwd =
     (let componentsJsonPath = resolve (process_cwd w) [cwd, ''components.json''] in
      if \<not> existsSync w componentsJsonPath
      then Inl (Error ''Missing components.json in current directory. Run shadcn init first.'')
      else
        (case readFile w componentsJsonPath of
           Inl e \<Rightarrow> Inl e
         | Inr rawConfig \<Rightarrow>
            (case parse rawConfig of
               Inl e \<Rightarrow> Inl e
             | Inr config \<Rightarrow>
                (let ctx = \<lparr> componentsAlias = orElse (Option.bind (aliases config) components) ''@/components'',
                              uiAlias = orElse (Option.bind (aliases config) ui) ''@/components/ui'',
                              utilsAlias = orElse (Option.bind (aliases config) utils) ''@/lib/utils'' \<rparr>
                 in Inr (ctx, resolveAliasPath (process_cwd w) (componentsAlias ctx) cwd)))))"

section \<open>Applying a registry item\<close>

text \<open>
  \<^verbatim>\<open>
  function detectPackageManager(cwd: string): "pnpm" | "npm" | "yarn" | "bun" {
    if (existsSync(resolve(cwd, "pnpm-lock.yaml"))) return "pnpm";
    if (existsSync(resolve(cwd, "yarn.lock"))) return "yarn";
    if (existsSync(resolve(cwd, "bun.lockb")) || existsSync(resolve(cwd, "bun.lock"))) return "bun";
    return "npm";
  }
  \<close>
\<close>

definition detectPackageManager :: "world \<Rightarrow> string \<Rightarrow> string" where
  "detectPackageManager w cwd =
     (if existsSync w (resolve (process_cwd w) [cwd, ''pnpm-lock.yaml'']) then ''pnpm''
      else if existsSync w (resolve (process_cwd w) [cwd, ''yarn.lock'']) then ''yarn''
      else if existsSync w (resolve (process_cwd w) [cwd, ''bun.lockb''])
              \<or> existsSync w (resolve (process_cwd w) [cwd, ''bun.lock'']) then ''bun''
      else ''npm'')"

text \<open>
  \<^verbatim>\<open>installDepsIfNeeded(cwd, deps)\<close> returns at once for an empty list and runs the package
  manager otherwise. What the child process does to the file system is the parameter
  \<open>spawn\<close> (command, arguments, working directory); its exit status only selects a
  message.
\<close>

type_synonym spawn_effect = "string \<Rightarrow> string list \<Rightarrow> string \<Rightarrow> world \<Rightarrow> world"

definition installDepsIfNeeded :: "spawn_effect \<Rightarrow> world \<Rightarrow> string \<Rightarrow> string list \<Rightarrow> world" where
  "installDepsIfNeeded spawn w cwd deps =
     (if deps = [] then w
      else (let pm = detectPackageManager w cwd
            in spawn pm ((if pm = ''npm'' then ''install'' else ''add'') # deps) cwd w))"

text \<open>
  The loop of \<^verbatim>\<open>applyRegistryItem\<close> over \<^verbatim>\<open>item.files\<close>:
  \<^verbatim>\<open>
    const sourcePath = resolve(templateRoot, file.source);
    const source = await readFile(sourcePath, "utf8");
    const replaceImports = file.replaceImports
      ? Object.fromEntries(
          Object.entries(file.replaceImports).map(([from, to]) => [from, interpolateTargetPath(to, aliases)]),
        )
      : undefined;
    const transformed = applyImportReplacements(source, replaceImports);
    const targetPath = resolve(componentsRoot, file.target);
    const result = await writeIfMissing(targetPath, transformed);
  \<close>
\<close>

definition interpolateEntries :: "AliasContext \<Rightarrow> RegistryFile \<Rightarrow> (string \<times> string) list option" where
  "interpolateEntries ctx file =
     map_option (map (\<lambda>(from, to). (from, interpolateTargetPath to ctx))) (replaceImports file)"

fun applyFiles ::
  "regexp_engine \<Rightarrow> world \<Rightarrow> string \<Rightarrow> AliasContext \<Rightarrow> string \<Rightarrow> RegistryFile list
     \<Rightarrow> (error + unit) \<times> world" where
  "applyFiles engine w templateRoot ctx componentsRoot [] = (Inr (), w)"
| "applyFiles engine w templateRoot ctx componentsRoot (file # rest) =
     (case readFile w (resolve (process_cwd w) [templateRoot, source file]) of
        Inl e \<Rightarrow> (Inl e, w)
      | Inr raw \<Rightarrow>
         (case applyImportReplacements engine raw (interpolateEntries ctx file) of
            Inl e \<Rightarrow> (Inl e, w)
          | Inr transformed \<Rightarrow>
             (case writeIfMissing w (resolve (process_cwd w) [componentsRoot, target file]) transformed of
                (Inl e, w1) \<Rightarrow> (Inl e, w1)
              | (Inr result, w1) \<Rightarrow> applyFiles engine w1 templateRoot ctx componentsRoot rest)))"

text \<open>
  \<^verbatim>\<open>
  export async function applyRegistryItem(cwd: string, item: RegistryItem): Promise<void> {
    const { aliases, componentsRoot } = await readAliasContext(cwd);
    const templateCandidates = [resolve(__dirname, "../templates"), resolve(__dirname, "../../templates")];
    const templateRoot = templateCandidates.find((candidate) => existsSync(candidate));
    if (!templateRoot) {
      throw new Error("Template directory not found in package output. Reinstall @chris-lally/ui.");
    }
    for (const file of item.files) { ... }
    installDepsIfNeeded(cwd, item.dependencies ?? []);
  }
  \<close>
  \<open>moduleDir\<close> is \<^verbatim>\<open>__dirname\<close>.
\<close>

definition applyRegistryItem ::
  "(string \<Rightarrow> error + ComponentsConfig) \<Rightarrow> regexp_engine \<Rightarrow> spawn_effect \<Rightarrow> string
     \<Rightarrow> world \<Rightarrow> string \<Rightarrow> RegistryItem \<Rightarrow> (error + unit) \<times> world" where
  "applyRegistryItem parse engine spawn moduleDir w cwd item =
     (case readAliasContext parse w cwd of
        Inl e \<Rightarrow> (Inl e, w)
      | Inr (ctx, componentsRoot) \<Rightarrow>
         (case find (existsSync w)
                 [resolve (process_cwd w) [moduleDir, ''../templates''],
                  resolve (process_cwd w) [moduleDir, ''../../templates'']] of
            None \<Rightarrow>
              (Inl (Error ''Template directory not found in package output. Reinstall @chris-lally/ui.''), w)
          | Some templateRoot \<Rightarrow>
             (case applyFiles engine w (path_string templateRoot) ctx (path_string componentsRoot)
                     (files item) of
                (Inl e, w1) \<Rightarrow> (Inl e, w1)
              | (Inr u, w1) \<Rightarrow>
                  (Inr (), installDepsIfNeeded spawn w1 cwd (orElse (dependencies item) [])))))"

section \<open>Registry exporter\<close>

definition DEFAULT_ALIASES :: AliasContext where
  "DEFAULT_ALIASES =
     \<lparr> componentsAlias = ''@/components'', uiAlias = ''@/components/ui'', utilsAlias = ''@/lib/utils'' \<rparr>"

text \<open>
  \<^verbatim>\<open>ExportedRegistryFile\<close>, \<^verbatim>\<open>ExportedRegistryItem\<close>, the entries of the aggregate
  manifest, and the manifest. The fields are prefixed, since several objects have fields
  of the same name.
\<close>

record ExportedRegistryFile =
  file_path :: string
  file_content :: string
  file_type :: registry_file_type
  file_target :: "string option"

record ExportedRegistryItem =
  item_schema :: string
  exported_name :: string
  exported_type :: string
  exported_title :: string
  exported_description :: string
  exported_dependencies :: "string list option"
  exported_registryDependencies :: "string list option"
  exported_files :: "ExportedRegistryFile list"

record ManifestFile =
  entry_file_path :: string
  entry_file_type :: registry_file_type
  entry_file_target :: "string option"

record ManifestItem =
  entry_name :: string
  entry_type :: string
  entry_title :: string
  entry_description :: string
  entry_dependencies :: "string list option"
  entry_registryDependencies :: "string list option"
  entry_files :: "ManifestFile list"

record RegistryManifest =
  manifest_schema :: string
  manifest_name :: string
  manifest_homepage :: string
  manifest_items :: "ManifestItem list"

text \<open>A value handed to \<^verbatim>\<open>writeJson\<close>.\<close>

datatype json_document = ItemDocument ExportedRegistryItem | ManifestDocument RegistryManifest

text \<open>
  \<^verbatim>\<open>
  function titleCase(text: string): string {
    return text.replace(/[-_]/g, " ").replace(/\b\w/g, (ch) => ch.toUpperCase());
  }
  \<close>
  A word character is a letter, a digit or the underscore of ASCII; the second replacement
  puts in upper case every word character that no word character precedes.
\<close>

definition wordCharacter :: "char \<Rightarrow> bool" where
  "wordCharacter c =
     (let n = (of_char c :: nat)
      in (48 \<le> n \<and> n \<le> 57) \<or> (65 \<le> n \<and> n \<le> 90) \<or> n = 95 \<or> (97 \<le> n \<and> n \<le> 122))"

definition toUpperCase :: "char \<Rightarrow> char" where
  "toUpperCase c =
     (let n = (of_char c :: nat) in if 97 \<le> n \<and> n \<le> 122 then char_of (n - 32) else c)"

fun capitalizeWords :: "bool \<Rightarrow> string \<Rightarrow> string" where
  "capitalizeWords inWord [] = []"
| "capitalizeWords inWord (c # cs) =
     (if wordCharacter c \<and> \<not> inWord then toUpperCase c else c) # capitalizeWords (wordCharacter c) cs"

definition titleCase :: "string \<Rightarrow> string" where
  "titleCase str =
     capitalizeWords False (map (\<lambda>c. if c = CHR ''-'' \<or> c = CHR ''_'' then CHR '' '' else c) str)"

text \<open>
  \<^verbatim>\<open>
  function slugForItem(item: RegistryItem): string {
    return item.id.replaceAll("/", "-");
  }
  \<close>
\<close>

definition slugForItem :: "RegistryItem \<Rightarrow> string" where
  "slugForItem item = replaceAll (item_id item) ''/'' ''-''"

text \<open>
  \<^verbatim>\<open>readTemplateContent(templateRoot, item)\<close>: the loop over \<^verbatim>\<open>item.files\<close>, which stops
  at the first file that throws.
  \<^verbatim>\<open>
    const sourcePath = resolve(templateRoot, file.source);
    if (!existsSync(sourcePath)) {
      throw new Error(`Missing template source for registry export: ${sourcePath}`);
    }
    const source = await readFile(sourcePath, "utf8");
    const replaceImports = file.replaceImports ? Object.fromEntries(...) : undefined;
    const content = applyImportReplacements(source, replaceImports);
    files.push({
      path: `registry/chris-lally/${slugForItem(item)}/${file.target}`,
      content,
      type: fileTypeForTarget(file.target),
      target: file.target,
    });
  \<close>
\<close>

fun readTemplateFiles ::
  "regexp_engine \<Rightarrow> world \<Rightarrow> string \<Rightarrow> RegistryItem \<Rightarrow> RegistryFile list
     \<Rightarrow> error + ExportedRegistryFile list" where
  "readTemplateFiles engine w templateRoot item [] = Inr []"
| "readTemplateFiles engine w templateRoot item (file # rest) =
     (let sourcePath = resolve (process_cwd w) [templateRoot, source file] in
      if \<not> existsSync w sourcePath
      then Inl (Error (''Missing template source for registry export: '' @ path_string sourcePath))
      else
        (case readFile w sourcePath of
           Inl e \<Rightarrow> Inl e
         | Inr raw \<Rightarrow>
            (case applyImportReplacements engine raw (interpolateEntries DEFAULT_ALIASES file) of
               Inl e \<Rightarrow> Inl e
             | Inr content \<Rightarrow>
                (case readTemplateFiles engine w templateRoot item rest of
                   Inl e \<Rightarrow> Inl e
                 | Inr others \<Rightarrow>
                     Inr (\<lparr> file_path = ''registry/chris-lally/'' @ slugForItem item @ ''/'' @ target file,
                            file_content = content,
                            file_type = fileTypeForTarget (target file),
                            file_target = Some (target file) \<rparr> # others)))))"

definition readTemplateContent ::
  "regexp_engine \<Rightarrow> world \<Rightarrow> string \<Rightarrow> RegistryItem \<Rightarrow> error + ExportedRegistryFile list" where
  "readTemplateContent engine w templateRoot item =
     readTemplateFiles engine w templateRoot item (files item)"

text \<open>
  \<^verbatim>\<open>
  async function writeJson(path: string, value: unknown): Promise<void> {
    await mkdir(dirname(path), { recursive: true });
    await writeFile(path, `${JSON.stringify(value, null, 2)}\n`, "utf8");
  }
  \<close>
  The parameter \<open>stringify\<close> is \<^verbatim>\<open>JSON.stringify(value, null, 2)\<close>.
\<close>

definition writeJson ::
  "(json_document \<Rightarrow> string) \<Rightarrow> world \<Rightarrow> path \<Rightarrow> json_document \<Rightarrow> (error + unit) \<times> world" where
  "writeJson stringify w p v =
     (case mkdir_recursive w (dirname p) of
        Inl e \<Rightarrow> (Inl e, w)
      | Inr w1 \<Rightarrow>
         (case writeFile w1 p (stringify v @ [CHR 0x0A]) of
            Inl e \<Rightarrow> (Inl e, w1)
          | Inr w2 \<Rightarrow> (Inr (), w2)))"

text \<open>The two objects \<^verbatim>\<open>exportRegistry\<close> builds for an item from the files it read.\<close>

definition exportedItem :: "RegistryItem \<Rightarrow> ExportedRegistryFile list \<Rightarrow> ExportedRegistryItem" where
  "exportedItem item fs =
     \<lparr> item_schema = ''https://ui.shadcn.com/schema/registry-item.json'',
       exported_name = slugForItem item,
       exported_type = ''registry:component'',
       exported_title = titleCase (slugForItem item),
       exported_description = description item,
       exported_dependencies = dependencies item,
       exported_registryDependencies = registryDependencies item,
       exported_files = fs \<rparr>"

definition manifestItem :: "RegistryItem \<Rightarrow> ExportedRegistryFile list \<Rightarrow> ManifestItem" where
  "manifestItem item fs =
     \<lparr> entry_name = slugForItem item,
       entry_type = ''registry:component'',
       entry_title = titleCase (slugForItem item),
       entry_description = description item,
       entry_dependencies = dependencies item,
       entry_registryDependencies = registryDependencies item,
       entry_files = map (\<lambda>f. \<lparr> entry_file_path = file_path f, entry_file_type = file_type f,
                                  entry_file_target = file_target f \<rparr>) fs \<rparr>"

text \<open>
  The loop of \<^verbatim>\<open>exportRegistry\<close> over the items; \<open>exportedItems\<close> is the array the loop
  pushes to.
  \<^verbatim>\<open>
    const slug = slugForItem(item);
    const files = await readTemplateContent(templateRoot, item);
    const exportedItem: ExportedRegistryItem = { ... };
    await writeJson(resolve(outDir, `${slug}.json`), exportedItem);
    exportedItems.push({ ..., files: files.map((file) => ({ path: file.path, type: file.type, target: file.target })) });
  \<close>
\<close>

fun exportItems ::
  "(json_document \<Rightarrow> string) \<Rightarrow> regexp_engine \<Rightarrow> string \<Rightarrow> string \<Rightarrow> world
     \<Rightarrow> RegistryItem list \<Rightarrow> ManifestItem list \<Rightarrow> (error + ManifestItem list) \<times> world" where
  "exportItems stringify engine templateRoot outDir w [] exportedItems = (Inr exportedItems, w)"
| "exportItems stringify engine templateRoot outDir w (item # rest) exportedItems =
     (case readTemplateContent engine w templateRoot item of
        Inl e \<Rightarrow> (Inl e, w)
      | Inr fs \<Rightarrow>
         (case writeJson stringify w (resolve (process_cwd w) [outDir, slugForItem item @ ''.json''])
                 (ItemDocument (exportedItem item fs)) of
            (Inl e, w1) \<Rightarrow> (Inl e, w1)
          | (Inr u, w1) \<Rightarrow>
              exportItems stringify engine templateRoot outDir w1 rest
                (exportedItems @ [manifestItem item fs])))"

text \<open>
  \<^verbatim>\<open>
  export async function exportRegistry(outDir: string): Promise<void> {
    const templateRoot = resolve(__dirname, "../../templates");
    if (!existsSync(templateRoot)) {
      throw new Error(`Missing templates directory: ${templateRoot}`);
    }
    const items = listRegistryItems();
    ...
    for (const item of items) { ... }
    await writeJson(resolve(outDir, "registry.json"), {
      $schema: "https://ui.shadcn.com/schema/registry.json",
      name: "chris-lally",
      homepage: "https://github.com/ChrisLally/lally-ui",
      items: exportedItems,
    });
    console.log(`Exported ${items.length} registry item(s) to ${outDir}`);
  }
  \<close>
  \<open>exportCatalog\<close> is the function for any catalog in the place of
  \<^verbatim>\<open>listRegistryItems()\<close>; the message on the console is left out.
\<close>

definition exportCatalog ::
  "(json_document \<Rightarrow> string) \<Rightarrow> regexp_engine \<Rightarrow> string \<Rightarrow> RegistryItem list
     \<Rightarrow> world \<Rightarrow> string \<Rightarrow> (error + unit) \<times> world" where
  "exportCatalog stringify engine moduleDir catalog w outDir =
     (let templateRoot = resolve (process_cwd w) [moduleDir, ''../../templates''] in
      if \<not> existsSync w templateRoot
      then (Inl (Error (''Missing templates directory: '' @ path_string templateRoot)), w)
      else
        (case exportItems stringify engine (path_string templateRoot) outDir w catalog [] of
           (Inl e, w1) \<Rightarrow> (Inl e, w1)
         | (Inr exportedItems, w1) \<Rightarrow>
             writeJson stringify w1 (resolve (process_cwd w1) [outDir, ''registry.json''])
               (ManifestDocument
                  \<lparr> manifest_schema = ''https://ui.shadcn.com/schema/registry.json'',
                    manifest_name = ''chris-lally'',
                    manifest_homepage = ''https://github.com/ChrisLally/lally-ui'',
                    manifest_items = exportedItems \<rparr>)))"

definition exportRegistry ::
  "(json_document \<Rightarrow> string) \<Rightarrow> regexp_engine \<Rightarrow> string \<Rightarrow> world \<Rightarrow> string
     \<Rightarrow> (error + unit) \<times> world" where
  "exportRegistry stringify engine moduleDir w outDir =
     exportCatalog stringify engine moduleDir listRegistryItems w outDir"

text \<open>
  The entry of \<open>writes\<close> for the document of an item, given the files read for it.
\<close>

definition itemWrite ::
  "(json_document \<Rightarrow> string) \<Rightarrow> path \<Rightarrow> string \<Rightarrow> RegistryItem \<times> ExportedRegistryFile list
     \<Rightarrow> path \<times> string" where
  "itemWrite stringify pcwd outDir = (\<lambda>(item, fs).
     (resolve pcwd [outDir, slugForItem item @ ''.json''],
      stringify (ItemDocument (exportedItem item fs)) @ [CHR 0x0A]))"

text \<open>
  The conditions on the file system under which an export goes through, for the theorems
  below: the template root exists; the source of every file of the catalog is a regular
  file under it and the keys of its import mapping are in the fragment of \<open>compileKey\<close>;
  no regular file stands in the place of the output directory or of a directory above it;
  and no directory stands in the place of a document to write.
\<close>

definition keys_compile :: "RegistryFile \<Rightarrow> bool" where
  "keys_compile f =
     (case replaceImports f of None \<Rightarrow> True
      | Some entries \<Rightarrow> list_all (\<lambda>(k, t). compileKey k \<noteq> None) entries)"

definition export_ready :: "string \<Rightarrow> RegistryItem list \<Rightarrow> world \<Rightarrow> string \<Rightarrow> bool" where
  "export_ready moduleDir catalog w outDir =
     (let templateRoot = resolve (process_cwd w) [moduleDir, ''../../templates''] in
      existsSync w templateRoot
      \<and> list_all (\<lambda>item. list_all (\<lambda>f.
            is_file (node_at w (resolve (process_cwd w) [path_string templateRoot, source f]))
            \<and> keys_compile f) (files item)) catalog
      \<and> list_all (\<lambda>q. \<not> is_file (node_at w q)) (prefixes (resolve (process_cwd w) [outDir]))
      \<and> list_all (\<lambda>item.
            node_at w (resolve (process_cwd w) [outDir, slugForItem item @ ''.json'']) \<noteq> Some Dir) catalog
      \<and> node_at w (resolve (process_cwd w) [outDir, ''registry.json'']) \<noteq> Some Dir)"

section \<open>Facts about strings\<close>

lemma startsWith_iff: "startsWith s p \<longleftrightarrow> begins_with s p"
  unfolding startsWith_def begins_with_def
  by (metis append_eq_conv_conj append_take_drop_id)

lemma includes_str_iff: "includes_str s p \<longleftrightarrow> contains s p"
proof (induction s)
  case Nil
  show ?case by (auto simp: contains_def)
next
  case (Cons c cs)
  show ?case
  proof
    assume "includes_str (c # cs) p"
    then consider "startsWith (c # cs) p" | "includes_str cs p" by auto
    then show "contains (c # cs) p"
    proof cases
      case 1
      then obtain rest where "c # cs = p @ rest"
        by (auto simp: startsWith_iff begins_with_def)
      then have "c # cs = [] @ p @ rest" by simp
      then show ?thesis unfolding contains_def by blast
    next
      case 2
      then obtain b a where "cs = b @ p @ a" using Cons.IH by (auto simp: contains_def)
      then have "c # cs = (c # b) @ p @ a" by simp
      then show ?thesis unfolding contains_def by blast
    qed
  next
    assume "contains (c # cs) p"
    then obtain b a where ba: "c # cs = b @ p @ a" by (auto simp: contains_def)
    show "includes_str (c # cs) p"
    proof (cases b)
      case Nil
      with ba have "begins_with (c # cs) p" by (auto simp: begins_with_def)
      then show ?thesis by (simp add: startsWith_iff)
    next
      case (Cons b0 bs)
      with ba have "cs = bs @ p @ a" by simp
      then have "contains cs p" unfolding contains_def by blast
      then show ?thesis using Cons.IH by simp
    qed
  qed
qed

section \<open>File classification (C7)\<close>

lemma includes_webhooks: "includes_str ''webhooks/x.ts'' ''hooks/''"
  by (simp add: startsWith_def)

text \<open>
  C7, as stated, fails: the target \<^verbatim>\<open>webhooks/x.ts\<close> does not begin with \<^verbatim>\<open>app/\<close> and
  contains \<^verbatim>\<open>hooks/\<close>, and it is classified as a component, not as a hook.
\<close>

theorem fileTypeForTarget_contains_counterexample:
  "\<not> begins_with ''webhooks/x.ts'' ''app/''
   \<and> contains ''webhooks/x.ts'' ''hooks/''
   \<and> fileTypeForTarget ''webhooks/x.ts'' = RegistryComponent"
proof -
  have "\<not> startsWith ''webhooks/x.ts'' ''app/''" by (simp add: startsWith_def)
  moreover have "contains ''webhooks/x.ts'' ''hooks/''"
    using includes_webhooks by (simp only: includes_str_iff)
  moreover have "fileTypeForTarget ''webhooks/x.ts'' = RegistryComponent"
    by (simp add: fileTypeForTarget_def startsWith_def)
  ultimately show ?thesis by (simp only: startsWith_iff simp_thms)
qed

text \<open>
  C7, amended: the four rules apply in this order. A target beginning with \<^verbatim>\<open>app/\<close> is a
  page; otherwise one that contains \<^verbatim>\<open>/hooks/\<close> or begins with \<^verbatim>\<open>hooks/\<close> is a hook;
  otherwise one that contains \<^verbatim>\<open>/lib/\<close> or \<^verbatim>\<open>/types/\<close>, or begins with \<^verbatim>\<open>lib/\<close> or
  \<^verbatim>\<open>types/\<close>, is a library; otherwise it is a component. The directory names are matched
  as whole path segments. The four examples of the specification classify as stated.
\<close>

theorem fileTypeForTarget_rules:
  "fileTypeForTarget t =
     (if begins_with t ''app/'' then RegistryPage
      else if contains t ''/hooks/'' \<or> begins_with t ''hooks/'' then RegistryHook
      else if contains t ''/lib/'' \<or> begins_with t ''lib/''
              \<or> contains t ''/types/'' \<or> begins_with t ''types/'' then RegistryLib
      else RegistryComponent)
   \<and> fileTypeForTarget ''app/page.tsx'' = RegistryPage
   \<and> fileTypeForTarget ''hooks/use-foo.ts'' = RegistryHook
   \<and> fileTypeForTarget ''lib/utils.ts'' = RegistryLib
   \<and> fileTypeForTarget ''components/button.tsx'' = RegistryComponent"
proof -
  have "fileTypeForTarget ''app/page.tsx'' = RegistryPage"
    by (simp add: fileTypeForTarget_def startsWith_def)
  moreover have "fileTypeForTarget ''hooks/use-foo.ts'' = RegistryHook"
    by (simp add: fileTypeForTarget_def startsWith_def)
  moreover have "fileTypeForTarget ''lib/utils.ts'' = RegistryLib"
    by (simp add: fileTypeForTarget_def startsWith_def)
  moreover have "fileTypeForTarget ''components/button.tsx'' = RegistryComponent"
    by (simp add: fileTypeForTarget_def startsWith_def)
  moreover have "fileTypeForTarget t =
     (if begins_with t ''app/'' then RegistryPage
      else if contains t ''/hooks/'' \<or> begins_with t ''hooks/'' then RegistryHook
      else if contains t ''/lib/'' \<or> begins_with t ''lib/''
              \<or> contains t ''/types/'' \<or> begins_with t ''types/'' then RegistryLib
      else RegistryComponent)"
    unfolding fileTypeForTarget_def by (simp only: startsWith_iff includes_str_iff)
  ultimately show ?thesis by (simp only: simp_thms)
qed

section \<open>Catalog lookup (C8)\<close>

lemma findIn_Some:
  assumes "findIn catalog ident = Some it"
  shows "it \<in> set catalog \<and> item_id it = ident"
  using assms unfolding findIn_def
  by (induction catalog) (auto split: if_splits)

lemma findIn_None: "findIn catalog ident = None \<longleftrightarrow> (\<forall>it \<in> set catalog. item_id it \<noteq> ident)"
  unfolding findIn_def by (auto simp: find_None_iff)

lemma findIn_unique:
  assumes "distinct (map item_id catalog)" and "it \<in> set catalog"
  shows "findIn catalog (item_id it) = Some it"
  using assms unfolding findIn_def
  by (induction catalog) (auto simp: image_iff)

lemma distinct_item_ids: "distinct (map item_id listRegistryItems)"
  by (simp add: listRegistryItems_def items_def fumadocsSdkLayoutItem_def
      brandingLogoWithBadgeItem_def)

text \<open>
  C8: \<open>listRegistryItems\<close> is the fixed sequence of the two items, no two of which share an
  id. For every id, \<open>findRegistryItem\<close> returns an item of the catalog with exactly that
  id, the only one, when there is one, and the absent value otherwise; it has no error
  result. It finds \<^verbatim>\<open>branding/logo-with-badge\<close> and does not find \<^verbatim>\<open>nonexistent/thing\<close>.
\<close>

theorem findRegistryItem_spec:
  "listRegistryItems = [fumadocsSdkLayoutItem, brandingLogoWithBadgeItem]
   \<and> distinct (map item_id listRegistryItems)
   \<and> (case findRegistryItem ident of
        Some it \<Rightarrow> it \<in> set listRegistryItems \<and> item_id it = ident
          \<and> (\<forall>other \<in> set listRegistryItems. item_id other = ident \<longrightarrow> other = it)
      | None \<Rightarrow> \<forall>it \<in> set listRegistryItems. item_id it \<noteq> ident)
   \<and> findRegistryItem ''branding/logo-with-badge'' = Some brandingLogoWithBadgeItem
   \<and> findRegistryItem ''nonexistent/thing'' = None"
proof -
  have l: "listRegistryItems = [fumadocsSdkLayoutItem, brandingLogoWithBadgeItem]"
    by (simp add: listRegistryItems_def items_def)
  have f: "findRegistryItem i = findIn listRegistryItems i" for i
    by (simp add: findRegistryItem_def listRegistryItems_def)
  have look: "case findRegistryItem ident of
        Some it \<Rightarrow> it \<in> set listRegistryItems \<and> item_id it = ident
          \<and> (\<forall>other \<in> set listRegistryItems. item_id other = ident \<longrightarrow> other = it)
      | None \<Rightarrow> \<forall>it \<in> set listRegistryItems. item_id it \<noteq> ident"
  proof (cases "findRegistryItem ident")
    case None
    then show ?thesis using findIn_None [of listRegistryItems ident] by (simp add: f)
  next
    case (Some it)
    then have found: "it \<in> set listRegistryItems \<and> item_id it = ident"
      using findIn_Some [of listRegistryItems ident it] by (simp add: f)
    have "other = it" if "other \<in> set listRegistryItems" "item_id other = ident" for other
      using findIn_unique [OF distinct_item_ids that(1)] that(2) Some by (simp add: f)
    with found Some show ?thesis by simp
  qed
  have b: "findRegistryItem ''branding/logo-with-badge'' = Some brandingLogoWithBadgeItem"
    by (simp add: findRegistryItem_def findIn_def items_def fumadocsSdkLayoutItem_def
        brandingLogoWithBadgeItem_def)
  have n: "findRegistryItem ''nonexistent/thing'' = None"
    by (simp add: findRegistryItem_def findIn_def items_def fumadocsSdkLayoutItem_def
        brandingLogoWithBadgeItem_def)
  from l distinct_item_ids look b n show ?thesis by (simp only: simp_thms)
qed

theorem findRegistryItem_spec_witness:
  "findRegistryItem ''fumadocs/sdk-layout'' = Some fumadocsSdkLayoutItem
   \<and> fumadocsSdkLayoutItem \<in> set listRegistryItems
   \<and> item_id fumadocsSdkLayoutItem = ''fumadocs/sdk-layout''"
proof -
  have g: "findRegistryItem ''fumadocs/sdk-layout'' = Some fumadocsSdkLayoutItem"
    by (simp add: findRegistryItem_def findIn_def items_def fumadocsSdkLayoutItem_def)
  show ?thesis using findRegistryItem_spec [of "''fumadocs/sdk-layout''"] by (simp add: g)
qed

section \<open>Alias resolution to a path (C6)\<close>

lemma splitSlash_ne: "splitSlash a \<noteq> []"
  by (induction a) (auto split: list.splits)

lemma splitSlash_append: "splitSlash (a @ CHR ''/'' # b) = splitSlash a @ splitSlash b"
  using splitSlash_ne by (induction a) (auto split: list.splits)

lemma norm_append: "normalizeSegments st (xs @ ys) = normalizeSegments (rev (normalizeSegments st xs)) ys"
  by (induction st xs rule: normalizeSegments.induct) auto

lemma norm_split:
  "normalizeSegments st (splitSlash (a @ CHR ''/'' # b)) =
   normalizeSegments (rev (normalizeSegments st (splitSlash a))) (splitSlash b)"
  by (simp only: splitSlash_append norm_append)

lemma isAbsolute_iff: "isAbsolute s \<longleftrightarrow> (s \<noteq> [] \<and> hd s = CHR ''/'')"
  by (cases s) (auto simp: isAbsolute_def startsWith_def)

lemma norm_split_hd:
  "s \<noteq> [] \<Longrightarrow> hd s = CHR ''/'' \<Longrightarrow>
   normalizeSegments st (splitSlash s) = normalizeSegments st (splitSlash (tl s))"
  by (cases s) auto

lemma resolve_one_abs: "isAbsolute a \<Longrightarrow> path_string (resolve pcwd [c, a]) = normal_form a"
  by (auto simp: isAbsolute_iff resolve_def normal_form_def norm_split)

lemma resolve_two:
  "\<not> isAbsolute a \<Longrightarrow> path_string (resolve pcwd [c, a]) = normal_form (anchor pcwd c @ ''/'' @ a)"
  apply (cases "a = []"; cases "c = []"; cases "isAbsolute c")
  apply (auto simp: isAbsolute_iff resolve_def normal_form_def anchor_def norm_split path_string_def)
  done

lemma resolve_three:
  "\<not> isAbsolute a \<Longrightarrow> path_string (resolve pcwd [c, ''src'', a]) = normal_form (anchor pcwd c @ ''/src/'' @ a)"
  apply (cases "a = []"; cases "c = []"; cases "isAbsolute c")
  apply (auto simp: isAbsolute_iff resolve_def normal_form_def anchor_def norm_split path_string_def)
  done

lemma resolve_three_abs:
  "isAbsolute a \<Longrightarrow> path_string (resolve pcwd [c, ''src'', a]) = normal_form a"
  by (auto simp: isAbsolute_iff resolve_def normal_form_def norm_split)

lemma splitSlash_plain: "CHR ''/'' \<notin> set s \<Longrightarrow> splitSlash s = [s]"
  by (induction s) auto

lemma joinSlash_Cons: "ss \<noteq> [] \<Longrightarrow> joinSlash (s # ss) = s @ CHR ''/'' # joinSlash ss"
  by (cases ss) auto

lemma joinSlash_append:
  "xs \<noteq> [] \<Longrightarrow> ys \<noteq> [] \<Longrightarrow> joinSlash (xs @ ys) = joinSlash xs @ CHR ''/'' # joinSlash ys"
  by (induction xs rule: joinSlash.induct) (auto simp: joinSlash_Cons)

lemma splitSlash_joinSlash:
  "r \<noteq> [] \<Longrightarrow> list_all plain_segment r \<Longrightarrow> splitSlash (joinSlash r) = r"
proof (induction r rule: joinSlash.induct)
  case 1
  then show ?case by simp
next
  case (2 s)
  then show ?case by (simp add: plain_segment_def splitSlash_plain)
next
  case (3 s t ss)
  then have "splitSlash (joinSlash (t # ss)) = t # ss" by simp
  moreover have "splitSlash s = [s]" using 3 by (simp add: plain_segment_def splitSlash_plain)
  ultimately show ?case by (simp add: splitSlash_append)
qed

lemma normalizeSegments_plain:
  "list_all plain_segment r \<Longrightarrow> normalizeSegments st r = rev st @ r"
  by (induction r arbitrary: st) (auto simp: plain_segment_def)

lemma normal_form_plain:
  "list_all plain_segment a \<Longrightarrow> normal_form (path_string a) = path_string a"
proof (cases "a = []")
  case True
  then show ?thesis by (simp add: normal_form_def path_string_def)
next
  case False
  assume "list_all plain_segment a"
  with False show ?thesis
    using splitSlash_append [of "[]" "joinSlash a"]
    by (simp add: normal_form_def path_string_def splitSlash_joinSlash normalizeSegments_plain)
qed

lemma normal_form_src:
  assumes "c \<noteq> []" "r \<noteq> []" "list_all plain_segment c" "list_all plain_segment r"
  shows "normal_form (path_string c @ ''/src/'' @ joinSlash r) = path_string c @ ''/src/'' @ joinSlash r"
proof -
  have "splitSlash (path_string c @ ''/src/'' @ joinSlash r) = [] # c @ [''src''] @ r"
    using assms splitSlash_append [of "[]" "joinSlash c @ ''/src/'' @ joinSlash r"]
      splitSlash_append [of "joinSlash c" "''src/'' @ joinSlash r"]
      splitSlash_append [of "''src''" "joinSlash r"]
    by (simp add: path_string_def splitSlash_joinSlash)
  moreover have "list_all plain_segment (c @ [''src''] @ r)"
    using assms by (simp add: plain_segment_def)
  then have "normalizeSegments [] ([] # c @ [''src''] @ r) = c @ [''src''] @ r"
    by (simp add: normalizeSegments_plain)
  ultimately have "normal_form (path_string c @ ''/src/'' @ joinSlash r) = path_string (c @ [''src''] @ r)"
    by (simp only: normal_form_def)
  also have "\<dots> = path_string c @ ''/src/'' @ joinSlash r"
    using assms by (simp add: path_string_def joinSlash_append joinSlash_Cons)
  finally show ?thesis .
qed

lemma isAbsolute_path_string: "isAbsolute (path_string p)"
  by (simp add: isAbsolute_iff path_string_def)

lemma anchor_absolute: "isAbsolute c \<Longrightarrow> anchor pcwd c = c"
  by (simp add: anchor_def)

text \<open>
  C6, amended: \<open>resolveAliasPath\<close> returns an absolute path in normal form. For an alias
  \<^verbatim>\<open>@/\<close>\<open>rem\<close> whose remainder does not begin with a slash it is the normal form of
  \<^verbatim>\<open><cwd>/src/<rem>\<close>, and for plain segments, literally that string; a remainder that begins
  with a slash is resolved on its own, from the root. Any other alias is resolved relative
  to \<open>cwd\<close>, an absolute alias to its own normal form, which is the alias itself when it is
  written in normal form. A relative \<open>cwd\<close> is taken from the working directory of the
  process.
\<close>

theorem resolveAliasPath_spec:
  "isAbsolute (path_string (resolveAliasPath pcwd alias cwd))
   \<and> (\<forall>rem. alias = ''@/'' @ rem \<and> \<not> isAbsolute rem \<longrightarrow>
         path_string (resolveAliasPath pcwd alias cwd) = normal_form (anchor pcwd cwd @ ''/src/'' @ rem))
   \<and> (\<forall>rem. alias = ''@/'' @ rem \<and> isAbsolute rem \<longrightarrow>
         path_string (resolveAliasPath pcwd alias cwd) = normal_form rem)
   \<and> (\<not> begins_with alias ''@/'' \<and> \<not> isAbsolute alias \<longrightarrow>
         path_string (resolveAliasPath pcwd alias cwd) = normal_form (anchor pcwd cwd @ ''/'' @ alias))
   \<and> (isAbsolute alias \<longrightarrow>
         path_string (resolveAliasPath pcwd alias cwd) = normal_form alias)
   \<and> (\<forall>c r. cwd = path_string c \<and> alias = ''@/'' @ joinSlash r \<and> c \<noteq> [] \<and> r \<noteq> []
           \<and> list_all plain_segment c \<and> list_all plain_segment r \<longrightarrow>
         path_string (resolveAliasPath pcwd alias cwd) = cwd @ ''/src/'' @ joinSlash r)
   \<and> (\<forall>a. alias = path_string a \<and> list_all plain_segment a \<longrightarrow>
         path_string (resolveAliasPath pcwd alias cwd) = alias)"
proof -
  let ?res = "path_string (resolveAliasPath pcwd alias cwd)"
  have abs: "isAbsolute ?res" by (rule isAbsolute_path_string)
  have at: "?res = path_string (resolve pcwd [cwd, ''src'', rem])" if "alias = ''@/'' @ rem" for rem
    using that by (simp add: resolveAliasPath_def startsWith_def)
  have other: "?res = path_string (resolve pcwd [cwd, alias])" if "\<not> begins_with alias ''@/''"
    using that by (simp add: resolveAliasPath_def startsWith_iff)
  have absolute_other: "\<not> begins_with alias ''@/''" if "isAbsolute alias"
    using that by (auto simp: isAbsolute_iff begins_with_def)
  have p2: "?res = normal_form (anchor pcwd cwd @ ''/src/'' @ rem)"
    if "alias = ''@/'' @ rem" "\<not> isAbsolute rem" for rem
    using at [OF that(1)] resolve_three [OF that(2)] by simp
  have p3: "?res = normal_form rem" if "alias = ''@/'' @ rem" "isAbsolute rem" for rem
    using at [OF that(1)] resolve_three_abs [OF that(2)] by simp
  have p4: "?res = normal_form (anchor pcwd cwd @ ''/'' @ alias)"
    if "\<not> begins_with alias ''@/''" "\<not> isAbsolute alias"
    using other [OF that(1)] resolve_two [OF that(2)] by simp
  have p5: "?res = normal_form alias" if "isAbsolute alias"
    using other [OF absolute_other [OF that]] resolve_one_abs [OF that] by simp
  have p6: "?res = cwd @ ''/src/'' @ joinSlash r"
    if "cwd = path_string c" "alias = ''@/'' @ joinSlash r" "c \<noteq> []" "r \<noteq> []"
      "list_all plain_segment c" "list_all plain_segment r" for c r
  proof -
    have "\<not> isAbsolute (joinSlash r)"
      using that(4,6) by (cases r rule: joinSlash.cases) (auto simp: isAbsolute_iff plain_segment_def dest: hd_in_set)
    then have "?res = normal_form (anchor pcwd cwd @ ''/src/'' @ joinSlash r)"
      using p2 that(2) by blast
    then show ?thesis
      using that normal_form_src [of c r] by (simp add: anchor_absolute isAbsolute_path_string)
  qed
  have p7: "?res = alias" if "alias = path_string a" "list_all plain_segment a" for a
    using p5 that normal_form_plain [of a] by (simp add: isAbsolute_path_string)
  from abs p2 p3 p4 p5 p6 p7 show ?thesis by blast
qed

theorem resolveAliasPath_spec_witness:
  "path_string (resolveAliasPath [''tmp''] ''@/components/ui'' ''/home/u/proj'')
     = ''/home/u/proj/src/components/ui''"
  using resolveAliasPath_spec [of "[''tmp'']" "''@/components/ui''" "''/home/u/proj''"]
  by (simp add: resolveAliasPath_def startsWith_def resolve_def path_string_def)

text \<open>
  C6, as stated, fails: for the alias \<^verbatim>\<open>@//etc\<close> the remainder \<^verbatim>\<open>/etc\<close> is absolute, and
  the result is \<^verbatim>\<open>/etc\<close>, which is not \<^verbatim>\<open><cwd>/src/<remainder>\<close>, not even in normal form.
\<close>

theorem resolveAliasPath_absolute_remainder_counterexample:
  "path_string (resolveAliasPath [''tmp''] ''@//etc'' ''/proj'') = ''/etc''
   \<and> normal_form (''/proj'' @ ''/src/'' @ ''/etc'') = ''/proj/src/etc''"
  by (simp add: resolveAliasPath_def startsWith_def resolve_def path_string_def normal_form_def)

section \<open>Writing a file only when it is missing (C2)\<close>

lemma mkdir_ok:
  assumes "\<forall>q. prefix q d \<longrightarrow> \<not> is_file (node_at w q)"
  shows "mkdir_recursive w d = Inr (w\<lparr>nodes := (\<lambda>q. if q \<noteq> [] \<and> prefix q d then Some Dir else nodes w q)\<rparr>)"
proof -
  have "find (\<lambda>q. is_file (node_at w q)) (prefixes d) = None"
    using assms by (simp add: find_None_iff)
  then show ?thesis by (simp add: mkdir_recursive_def)
qed

lemma prefix_butlast: "p \<noteq> [] \<Longrightarrow> prefix q (butlast p) \<longleftrightarrow> strict_prefix q p"
proof (cases p rule: rev_cases)
  case Nil
  assume "p \<noteq> []"
  with Nil show ?thesis by simp
next
  case (snoc xs x)
  have "prefix q xs \<Longrightarrow> q \<noteq> xs @ [x]"
    by (auto dest: prefix_length_le)
  then show ?thesis using snoc by (auto simp: strict_prefix_def)
qed

lemma writeIfMissing_created:
  assumes "\<not> existsSync w p" and "\<forall>q. strict_prefix q p \<longrightarrow> \<not> is_file (node_at w q)"
  shows "writeIfMissing w p c =
     (Inr Created, w\<lparr>nodes := (\<lambda>q. if q = p then Some (File c)
                                    else if q \<noteq> [] \<and> strict_prefix q p then Some Dir else nodes w q),
                     writes := writes w @ [(p, c)]\<rparr>)"
proof -
  from assms(1) have pne: "p \<noteq> []" and none: "nodes w p = None"
    by (auto simp: existsSync_def node_at_def split: if_splits)
  let ?w1 = "w\<lparr>nodes := (\<lambda>q. if q \<noteq> [] \<and> prefix q (dirname p) then Some Dir else nodes w q)\<rparr>"
  have mk: "mkdir_recursive w (dirname p) = Inr ?w1"
    using assms(2) pne by (intro mkdir_ok) (simp add: dirname_def prefix_butlast)
  have at_p: "node_at ?w1 p = None"
    using pne none by (simp add: node_at_def dirname_def prefix_butlast)
  have at_d: "node_at ?w1 (dirname p) = Some Dir"
    by (simp add: node_at_def)
  have wr: "writeFile ?w1 p c = Inr (?w1\<lparr>nodes := (nodes ?w1)(p \<mapsto> File c), writes := writes ?w1 @ [(p, c)]\<rparr>)"
    using at_p at_d by (simp add: writeFile_def)
  have "writeIfMissing w p c = (Inr Created, ?w1\<lparr>nodes := (nodes ?w1)(p \<mapsto> File c), writes := writes ?w1 @ [(p, c)]\<rparr>)"
    using assms(1) mk wr by (simp add: writeIfMissing_def)
  also have "?w1\<lparr>nodes := (nodes ?w1)(p \<mapsto> File c), writes := writes ?w1 @ [(p, c)]\<rparr> =
     w\<lparr>nodes := (\<lambda>q. if q = p then Some (File c)
                                    else if q \<noteq> [] \<and> strict_prefix q p then Some Dir else nodes w q),
                     writes := writes w @ [(p, c)]\<rparr>"
    using pne by (auto simp: dirname_def prefix_butlast fun_eq_iff)
  finally show ?thesis .
qed

lemma writeIfMissing_skipped: "existsSync w p \<Longrightarrow> writeIfMissing w p c = (Inr Skipped, w)"
  by (simp add: writeIfMissing_def)

text \<open>
  C2, as stated, fails: when a regular file stands where a directory of the path is
  needed, nothing exists at the path, and yet \<^verbatim>\<open>mkdir\<close> throws and nothing is written.
\<close>

theorem writeIfMissing_file_ancestor_counterexample:
  "\<not> existsSync \<lparr>process_cwd = [], nodes = [[''a''] \<mapsto> File ''x''], writes = []\<rparr> [''a'', ''b'']
   \<and> writeIfMissing \<lparr>process_cwd = [], nodes = [[''a''] \<mapsto> File ''x''], writes = []\<rparr> [''a'', ''b''] ''c''
       = (Inl (EEXIST [''a'']), \<lparr>process_cwd = [], nodes = [[''a''] \<mapsto> File ''x''], writes = []\<rparr>)"
  by (simp add: writeIfMissing_def existsSync_def node_at_def mkdir_recursive_def dirname_def
      is_file_def)

text \<open>
  C2, amended: on a state where nothing exists at the path and no ancestor of the path is
  a regular file, \<open>writeIfMissing path c1\<close> returns \<open>Created\<close>, every ancestor is a directory
  afterwards, the file holds \<open>c1\<close>, nothing outside the path and its ancestors changes,
  and the one write is that of \<open>c1\<close>. A second call with any content \<open>c2\<close> returns
  \<open>Skipped\<close> and leaves the state as it is, so the content stays \<open>c1\<close>. On any state where
  the path exists the call returns \<open>Skipped\<close>, never an error, and changes nothing.
\<close>

theorem writeIfMissing_created_then_skipped:
  assumes "\<not> existsSync w p"
    and "\<forall>q. strict_prefix q p \<longrightarrow> \<not> is_file (node_at w q)"
  shows "fst (writeIfMissing w p c1) = Inr Created
    \<and> (let w1 = snd (writeIfMissing w p c1) in
         node_at w1 p = Some (File c1)
         \<and> (\<forall>q. strict_prefix q p \<longrightarrow> node_at w1 q = Some Dir)
         \<and> (\<forall>q. \<not> prefix q p \<longrightarrow> node_at w1 q = node_at w q)
         \<and> writes w1 = writes w @ [(p, c1)]
         \<and> writeIfMissing w1 p c2 = (Inr Skipped, w1)
         \<and> node_at (snd (writeIfMissing w1 p c2)) p = Some (File c1))
    \<and> (\<forall>w' c. existsSync w' p \<longrightarrow> writeIfMissing w' p c = (Inr Skipped, w'))"
proof -
  let ?w1 = "w\<lparr>nodes := (\<lambda>q. if q = p then Some (File c1)
                                else if q \<noteq> [] \<and> strict_prefix q p then Some Dir else nodes w q),
                 writes := writes w @ [(p, c1)]\<rparr>"
  from assms(1) have pne: "p \<noteq> []"
    by (auto simp: existsSync_def node_at_def split: if_splits)
  have run: "writeIfMissing w p c1 = (Inr Created, ?w1)"
    using assms by (rule writeIfMissing_created)
  have holds: "node_at ?w1 p = Some (File c1)"
    using pne by (simp add: node_at_def)
  have dirs: "node_at ?w1 q = Some Dir" if "strict_prefix q p" for q
    using that by (auto simp: node_at_def)
  have frame: "node_at ?w1 q = node_at w q" if "\<not> prefix q p" for q
    using that by (auto simp: node_at_def strict_prefix_def)
  have again: "writeIfMissing ?w1 p c2 = (Inr Skipped, ?w1)"
    using holds by (intro writeIfMissing_skipped) (simp add: existsSync_def)
  have skip: "writeIfMissing w' p c = (Inr Skipped, w')" if "existsSync w' p" for w' c
    using that by (rule writeIfMissing_skipped)
  show ?thesis
    unfolding run Let_def fst_conv snd_conv again
    using holds dirs frame skip by simp
qed

theorem writeIfMissing_created_then_skipped_witness:
  "fst (writeIfMissing \<lparr>process_cwd = [], nodes = Map.empty, writes = []\<rparr>
          [''proj'', ''src'', ''a.tsx''] ''first'') = Inr Created
   \<and> node_at (snd (writeIfMissing (snd (writeIfMissing
          \<lparr>process_cwd = [], nodes = Map.empty, writes = []\<rparr>
          [''proj'', ''src'', ''a.tsx''] ''first'')) [''proj'', ''src'', ''a.tsx''] ''second''))
        [''proj'', ''src'', ''a.tsx''] = Some (File ''first'')"
  using writeIfMissing_created_then_skipped
    [of "\<lparr>process_cwd = [], nodes = Map.empty, writes = []\<rparr>"
        "[''proj'', ''src'', ''a.tsx'']" "''first''" "''second''"]
  by (simp add: existsSync_def node_at_def is_file_def Let_def)

section \<open>Alias defaults (C5)\<close>

text \<open>
  C5: when the configuration file exists and parses, \<open>readAliasContext\<close> succeeds and each
  of the three aliases is the field of the configuration when the \<^verbatim>\<open>aliases\<close> object and
  the field are present, and its own default otherwise, whatever the other two fields
  are; without an \<^verbatim>\<open>aliases\<close> object the result is exactly the three defaults. The
  components root is the components alias resolved by \<open>resolveAliasPath\<close>.
\<close>

theorem readAliasContext_defaults:
  assumes "node_at w (resolve (process_cwd w) [cwd, ''components.json'']) = Some (File raw)"
    and "parse raw = Inr config"
  shows "case readAliasContext parse w cwd of
           Inl e \<Rightarrow> False
         | Inr (ctx, root) \<Rightarrow>
             componentsAlias ctx =
               (case aliases config of None \<Rightarrow> ''@/components''
                | Some a \<Rightarrow> (case components a of None \<Rightarrow> ''@/components'' | Some v \<Rightarrow> v))
           \<and> uiAlias ctx =
               (case aliases config of None \<Rightarrow> ''@/components/ui''
                | Some a \<Rightarrow> (case ui a of None \<Rightarrow> ''@/components/ui'' | Some v \<Rightarrow> v))
           \<and> utilsAlias ctx =
               (case aliases config of None \<Rightarrow> ''@/lib/utils''
                | Some a \<Rightarrow> (case utils a of None \<Rightarrow> ''@/lib/utils'' | Some v \<Rightarrow> v))
           \<and> (aliases config = None \<longrightarrow>
                 ctx = \<lparr> componentsAlias = ''@/components'', uiAlias = ''@/components/ui'',
                         utilsAlias = ''@/lib/utils'' \<rparr>)
           \<and> root = resolveAliasPath (process_cwd w) (componentsAlias ctx) cwd"
  using assms
  by (auto simp: readAliasContext_def existsSync_def readFile_def orElse_def Let_def
      split: option.splits)

theorem readAliasContext_defaults_witness:
  "readAliasContext (\<lambda>raw. Inr \<lparr>aliases = Some \<lparr>components = None, ui = Some ''~/ui'', utils = None\<rparr>\<rparr>)
     \<lparr>process_cwd = [''proj''], nodes = [[''proj'', ''components.json''] \<mapsto> File ''{}''], writes = []\<rparr>
     ''/proj''
   = Inr (\<lparr>componentsAlias = ''@/components'', uiAlias = ''~/ui'', utilsAlias = ''@/lib/utils''\<rparr>,
          [''proj'', ''src'', ''components''])"
  using readAliasContext_defaults
    [of "\<lparr>process_cwd = [''proj''], nodes = [[''proj'', ''components.json''] \<mapsto> File ''{}''], writes = []\<rparr>"
        "''/proj''" "''{}''"
        "\<lambda>raw. Inr \<lparr>aliases = Some \<lparr>components = None, ui = Some ''~/ui'', utils = None\<rparr>\<rparr>"
        "\<lparr>aliases = Some \<lparr>components = None, ui = Some ''~/ui'', utils = None\<rparr>\<rparr>"]
  by (simp add: readAliasContext_def existsSync_def readFile_def orElse_def Let_def node_at_def
      resolve_def path_string_def resolveAliasPath_def startsWith_def)

section \<open>Missing configuration (C9)\<close>

text \<open>
  C9: when \<^verbatim>\<open>components.json\<close> does not exist in the working directory,
  \<open>readAliasContext\<close> throws the error whose message tells the user to run the init step,
  whatever the parser would do, and \<open>applyRegistryItem\<close>, the command that called it, ends
  with that error and leaves the file system as it was.
\<close>

theorem readAliasContext_missing:
  assumes "\<not> existsSync w (resolve (process_cwd w) [cwd, ''components.json''])"
  shows "readAliasContext parse w cwd
           = Inl (Error ''Missing components.json in current directory. Run shadcn init first.'')
       \<and> applyRegistryItem parse engine spawn moduleDir w cwd item
           = (Inl (Error ''Missing components.json in current directory. Run shadcn init first.''), w)"
  using assms by (simp add: readAliasContext_def applyRegistryItem_def)

theorem readAliasContext_missing_witness:
  "applyRegistryItem (\<lambda>raw. Inl SyntaxError) (\<lambda>p s r. Inl SyntaxError) (\<lambda>c a d w. w) ''/pkg/dist''
     \<lparr>process_cwd = [''proj''], nodes = Map.empty, writes = []\<rparr> ''/proj'' brandingLogoWithBadgeItem
   = (Inl (Error ''Missing components.json in current directory. Run shadcn init first.''),
      \<lparr>process_cwd = [''proj''], nodes = Map.empty, writes = []\<rparr>)"
  using readAliasContext_missing
    [of "\<lparr>process_cwd = [''proj''], nodes = Map.empty, writes = []\<rparr>" "''/proj''"
        "\<lambda>raw. Inl SyntaxError" "\<lambda>p s r. Inl SyntaxError" "\<lambda>c a d w. w" "''/pkg/dist''"
        brandingLogoWithBadgeItem]
  by (simp add: existsSync_def node_at_def resolve_def)

section \<open>Facts about replacing\<close>

lemma getSubstitution_literal:
  "CHR ''$'' \<notin> set r \<Longrightarrow> getSubstitution m s f r = r"
  by (induction m s f r rule: getSubstitution.induct) auto

lemma replaceGlobal_Nil: "atoms \<noteq> [] \<Longrightarrow> replaceGlobal atoms r scanned [] = []"
  by (cases atoms) (simp_all add: replaceGlobal.simps)

lemma replaceGlobal_no_match:
  "\<not> matchesAt atoms (c # cs) \<Longrightarrow>
     replaceGlobal atoms r scanned (c # cs) = c # replaceGlobal atoms r (scanned @ [c]) cs"
  by (subst replaceGlobal.simps) simp

lemma replaceGlobal_match:
  "atoms \<noteq> [] \<Longrightarrow> matchesAt atoms rest \<Longrightarrow>
     replaceGlobal atoms r scanned rest =
       getSubstitution (take (length atoms) rest) scanned (drop (length atoms) rest) r
       @ replaceGlobal atoms r (scanned @ take (length atoms) rest) (drop (length atoms) rest)"
  by (subst replaceGlobal.simps) simp

lemma replaceGlobal_empty:
  "replaceGlobal [] r scanned rest =
     (case rest of
        [] \<Rightarrow> getSubstitution [] scanned rest r
      | c # cs \<Rightarrow> getSubstitution [] scanned rest r @ c # replaceGlobal [] r (scanned @ [c]) cs)"
  by (subst replaceGlobal.simps) simp

lemma replaceGlobal_scanned:
  assumes "CHR ''$'' \<notin> set r"
  shows "replaceGlobal atoms r s1 rest = replaceGlobal atoms r s2 rest"
proof (induction "length rest" arbitrary: rest s1 s2 rule: less_induct)
  case less
  note lit = getSubstitution_literal [OF assms]
  show ?case
  proof (cases "matchesAt atoms rest")
    case False
    show ?thesis
    proof (cases rest)
      case Nil
      with False have "atoms \<noteq> []" by auto
      then show ?thesis unfolding Nil by (simp add: replaceGlobal_Nil)
    next
      case (Cons c cs)
      have "replaceGlobal atoms r (s1 @ [c]) cs = replaceGlobal atoms r (s2 @ [c]) cs"
        by (rule less) (simp add: Cons)
      moreover from False have "\<not> matchesAt atoms (c # cs)" by (simp add: Cons)
      note replaceGlobal_no_match [OF this, of r s1] replaceGlobal_no_match [OF this, of r s2]
      ultimately show ?thesis unfolding Cons by simp
    qed
  next
    case True
    show ?thesis
    proof (cases "atoms = []")
      case False
      from True False have "rest \<noteq> []" by (cases atoms; cases rest) auto
      with False have "length (drop (length atoms) rest) < length rest" by simp
      then have "replaceGlobal atoms r (s1 @ take (length atoms) rest) (drop (length atoms) rest)
          = replaceGlobal atoms r (s2 @ take (length atoms) rest) (drop (length atoms) rest)"
        by (rule less)
      then show ?thesis
        by (simp only: replaceGlobal_match [OF False True] lit)
    next
      case e: True
      show ?thesis
      proof (cases rest)
        case Nil
        then show ?thesis unfolding e by (simp add: replaceGlobal_empty lit)
      next
        case (Cons c cs)
        have "replaceGlobal [] r (s1 @ [c]) cs = replaceGlobal [] r (s2 @ [c]) cs"
          unfolding e [symmetric] by (rule less) (simp add: Cons)
        then show ?thesis
          unfolding e Cons
          by (subst replaceGlobal_empty, subst (2) replaceGlobal_empty) (simp add: lit)
      qed
    qed
  qed
qed

lemma matchesAt_append:
  "matchesAt (as @ bs) s \<longleftrightarrow> matchesAt as s \<and> matchesAt bs (drop (length as) s)"
  by (induction as s rule: matchesAt.induct) auto

lemma matchesAt_Lit: "matchesAt (map Lit k) s \<longleftrightarrow> take (length k) s = k \<and> length k \<le> length s"
  by (induction "map Lit k" s arbitrary: k rule: matchesAt.induct) auto

lemma compileKey_self:
  "compileKey key = Some atoms \<Longrightarrow> matchesAt atoms (key @ rest) \<and> length atoms = length key"
proof -
  have "matchesAt (map (\<lambda>c. if c = CHR ''.'' then AnyChar else Lit c) k) (k @ rest)" for k
    by (induction k) auto
  moreover assume "compileKey key = Some atoms"
  ultimately show ?thesis by (auto simp: compileKey_def split: if_splits)
qed

lemma compileKey_literal:
  assumes "compileKey key = Some atoms" and "CHR ''.'' \<notin> set key"
  shows "atoms = map Lit key"
  using assms by (auto simp: compileKey_def split: if_splits)

lemma importPattern_length: "length (importPattern atoms) = length atoms + 7"
  by (simp add: importPattern_def)

lemma importPattern_matches_key:
  assumes "compileKey key = Some atoms" and "q \<in> {sq, dq}" and "q' \<in> {sq, dq}"
  shows "matchesAt (importPattern atoms) (''from '' @ [q] @ key @ [q'] @ rest)"
  using assms compileKey_self [OF assms(1), of "q' # rest"]
  by (auto simp: importPattern_def matchesAt_append)

lemma matchesAt_Lit_append:
  "matchesAt (map Lit k @ bs) s \<longleftrightarrow> (\<exists>t. s = k @ t \<and> matchesAt bs t)"
proof
  assume "matchesAt (map Lit k @ bs) s"
  then have "take (length k) s = k" and "matchesAt bs (drop (length k) s)"
    by (simp_all add: matchesAt_append matchesAt_Lit)
  then have "s = k @ drop (length k) s \<and> matchesAt bs (drop (length k) s)"
    by (metis append_take_drop_id)
  then show "\<exists>t. s = k @ t \<and> matchesAt bs t" by blast
next
  assume "\<exists>t. s = k @ t \<and> matchesAt bs t"
  then show "matchesAt (map Lit k @ bs) s"
    by (auto simp: matchesAt_append matchesAt_Lit)
qed

lemma matchesAt_OneOf_Cons:
  "matchesAt (OneOf cs # bs) s \<longleftrightarrow> (\<exists>q t. s = q # t \<and> q \<in> set cs \<and> matchesAt bs t)"
  by (cases s) auto

text \<open>
  Where the code does what C1 says: a key without any syntax character is matched as it
  is written, between two quote characters of either kind.
\<close>

lemma importPattern_literal_iff:
  assumes "compileKey key = Some atoms" and "CHR ''.'' \<notin> set key"
  shows "matchesAt (importPattern atoms) s \<longleftrightarrow>
     (\<exists>q q' rest. q \<in> {sq, dq} \<and> q' \<in> {sq, dq} \<and> s = ''from '' @ [q] @ key @ [q'] @ rest)"
proof -
  have atoms: "atoms = map Lit key" using assms by (rule compileKey_literal)
  have shape: "importPattern atoms
      = map Lit ''from '' @ OneOf [sq, dq] # map Lit key @ OneOf [sq, dq] # []"
    unfolding importPattern_def atoms by (simp only: append_Cons append_Nil)
  have "matchesAt (importPattern atoms) s \<longleftrightarrow>
      (\<exists>t. s = ''from '' @ t \<and> (\<exists>q t2. t = q # t2 \<and> q \<in> set [sq, dq]
         \<and> (\<exists>t3. t2 = key @ t3 \<and> (\<exists>q' rest. t3 = q' # rest \<and> q' \<in> set [sq, dq] \<and> True))))"
    unfolding shape
    by (simp only: matchesAt_Lit_append matchesAt_OneOf_Cons matchesAt.simps(1))
  also have "\<dots> \<longleftrightarrow>
      (\<exists>q q' rest. q \<in> {sq, dq} \<and> q' \<in> {sq, dq} \<and> s = ''from '' @ [q] @ key @ [q'] @ rest)"
    by (simp del: append.simps) (metis append_Cons append_Nil)
  finally show ?thesis .
qed

lemma replaceGlobal_match_prefix:
  assumes "atoms \<noteq> []" and "matchesAt atoms (m @ rest)" and "length atoms = length m"
    and "CHR ''$'' \<notin> set r"
  shows "replaceGlobal atoms r scanned (m @ rest) = r @ replaceGlobal atoms r [] rest"
proof -
  have "replaceGlobal atoms r scanned (m @ rest)
      = getSubstitution (take (length atoms) (m @ rest)) scanned (drop (length atoms) (m @ rest)) r
        @ replaceGlobal atoms r (scanned @ take (length atoms) (m @ rest)) (drop (length atoms) (m @ rest))"
    using assms(1,2) by (rule replaceGlobal_match)
  also have "\<dots> = r @ replaceGlobal atoms r (scanned @ m) rest"
    using assms(3,4) by (simp add: getSubstitution_literal)
  also have "replaceGlobal atoms r (scanned @ m) rest = replaceGlobal atoms r [] rest"
    using assms(4) by (rule replaceGlobal_scanned)
  finally show ?thesis .
qed

text \<open>
  Where the code does what C10 says: when the replacement specifier has no dollar sign,
  an import of the key, in single or in double quotes, is emitted as
  \<^verbatim>\<open>from '<replacement>'\<close>, and a character at which the pattern does not match is
  copied.
\<close>

lemma replaceImport_single_quotes:
  assumes "compileKey key = Some atoms" and "CHR ''$'' \<notin> set to"
    and "q \<in> {sq, dq}" and "q' \<in> {sq, dq}"
  shows "replaceImport engine (''from '' @ [q] @ key @ [q'] @ rest) key to
     = Inr (''from '' @ [sq] @ to @ [sq]
            @ replaceGlobal (importPattern atoms) (''from '' @ [sq] @ to @ [sq]) [] rest)"
proof -
  define m where "m = ''from '' @ [q] @ key @ [q']"
  define r where "r = ''from '' @ [sq] @ to @ [sq]"
  have len: "length (importPattern atoms) = length m"
    using compileKey_self [OF assms(1)] by (simp add: importPattern_length m_def)
  have dollar: "CHR ''$'' \<notin> set r" using assms(2) by (simp add: r_def)
  have ne: "importPattern atoms \<noteq> []" by (simp add: importPattern_def)
  have s: "''from '' @ [q] @ key @ [q'] @ rest = m @ rest" by (simp add: m_def)
  have m: "matchesAt (importPattern atoms) (m @ rest)"
    using importPattern_matches_key [OF assms(1,3,4), of rest] by (simp only: s)
  have "replaceGlobal (importPattern atoms) r [] (m @ rest)
      = r @ replaceGlobal (importPattern atoms) r [] rest"
    using ne m len dollar by (rule replaceGlobal_match_prefix)
  then show ?thesis
    using assms(1) by (simp add: replaceImport_def m_def r_def)
qed

lemma replaceImport_keeps_other:
  assumes "compileKey key = Some atoms" and "\<not> matchesAt (importPattern atoms) (c # cs)"
    and "CHR ''$'' \<notin> set to"
  shows "replaceImport engine (c # cs) key to
     = Inr (c # replaceGlobal (importPattern atoms) (''from '' @ [sq] @ to @ [sq]) [] cs)"
proof -
  define r where "r = ''from '' @ [sq] @ to @ [sq]"
  have dollar: "CHR ''$'' \<notin> set r" using assms(3) by (simp add: r_def)
  have "replaceGlobal (importPattern atoms) r [] (c # cs)
      = c # replaceGlobal (importPattern atoms) r ([] @ [c]) cs"
    using assms(2) by (rule replaceGlobal_no_match)
  also have "replaceGlobal (importPattern atoms) r ([] @ [c]) cs
      = replaceGlobal (importPattern atoms) r [] cs"
    using dollar by (rule replaceGlobal_scanned)
  finally show ?thesis
    using assms(1) by (simp add: replaceImport_def r_def)
qed

section \<open>Import rewriting (C1, C10)\<close>

text \<open>
  C1 fails on the code: the key \<^verbatim>\<open>../../../lib/cn\<close> of the catalog is not escaped, its dots
  match any character, and the import of the different module \<^verbatim>\<open>ab/cd/ef/lib/cn\<close> is
  rewritten as well.
\<close>

theorem applyImportReplacements_dot_is_wildcard:
  "applyImportReplacements engine ''import { cn } from 'ab/cd/ef/lib/cn';''
     (Some [(''../../../lib/cn'', ''@/lib/utils'')])
   = Inr ''import { cn } from '@/lib/utils';''"
  by code_simp

text \<open>
  C10 fails on the code: the replacement text is not escaped either. For the replacement
  specifier \<^verbatim>\<open>a$\<close> the dollar sign and the closing quote of the template form the
  pattern \<^verbatim>\<open>$'\<close>, which stands for the text after the match: the import is emitted as
  \<^verbatim>\<open>from 'a;\<close> and has no closing quote.
\<close>

theorem applyImportReplacements_dollar_in_replacement:
  "applyImportReplacements engine (''import { x } from '' @ [dq] @ ''x'' @ [dq] @ '';'')
     (Some [(''x'', ''a$'')])
   = Inr (''import { x } from '' @ [sq] @ ''a;;'')"
  by code_simp

section \<open>Registry export (C3, C4)\<close>

lemma mkdir_recursive_keeps:
  "mkdir_recursive w d = Inr w1 \<Longrightarrow> writes w1 = writes w \<and> process_cwd w1 = process_cwd w"
  by (auto simp: mkdir_recursive_def split: option.splits)

lemma writeFile_effect:
  "writeFile w p c = Inr w1 \<Longrightarrow>
     writes w1 = writes w @ [(p, c)] \<and> process_cwd w1 = process_cwd w \<and> node_at w1 p = Some (File c)"
  by (auto simp: writeFile_def node_at_def split: option.splits node.splits if_splits)

lemma writeJson_ok:
  assumes "writeJson stringify w p v = (Inr u, w1)"
  shows "writes w1 = writes w @ [(p, stringify v @ [CHR 0x0A])] \<and> process_cwd w1 = process_cwd w
         \<and> node_at w1 p = Some (File (stringify v @ [CHR 0x0A]))"
  using assms mkdir_recursive_keeps writeFile_effect
  by (fastforce simp: writeJson_def split: sum.splits)

lemma writeJson_failed:
  assumes "writeJson stringify w p v = (Inl e, w1)"
  shows "writes w1 = writes w \<and> process_cwd w1 = process_cwd w"
  using assms mkdir_recursive_keeps
  by (fastforce simp: writeJson_def split: sum.splits)

lemma readTemplateFiles_shape:
  "readTemplateFiles engine w templateRoot item fls = Inr fs \<Longrightarrow>
     map file_path fs = map (\<lambda>f. ''registry/chris-lally/'' @ slugForItem item @ ''/'' @ target f) fls
     \<and> map file_target fs = map (\<lambda>f. Some (target f)) fls
     \<and> map file_type fs = map (\<lambda>f. fileTypeForTarget (target f)) fls"
  by (induction fls arbitrary: fs) (auto simp: Let_def split: if_splits sum.splits)

lemma readTemplateFiles_missing:
  assumes "f \<in> set fls"
    and "\<not> is_file (node_at w (resolve (process_cwd w) [templateRoot, source f]))"
  shows "\<exists>e. readTemplateFiles engine w templateRoot item fls = Inl e"
  using assms
proof (induction fls)
  case Nil
  then show ?case by simp
next
  case (Cons g fls)
  show ?case
  proof (cases "g = f")
    case True
    with Cons.prems(2) show ?thesis
      by (auto simp: Let_def existsSync_def readFile_def is_file_def split: option.splits node.splits)
  next
    case False
    with Cons have "\<exists>e. readTemplateFiles engine w templateRoot item fls = Inl e" by simp
    then show ?thesis by (auto simp: Let_def split: sum.splits)
  qed
qed

lemma exportItems_append:
  "exportItems stringify engine tr outDir w (xs @ ys) acc =
     (case exportItems stringify engine tr outDir w xs acc of
        (Inl e, w1) \<Rightarrow> (Inl e, w1)
      | (Inr acc1, w1) \<Rightarrow> exportItems stringify engine tr outDir w1 ys acc1)"
proof (induction xs arbitrary: w acc)
  case Nil
  show ?case by simp
next
  case (Cons x xs)
  show ?case by (simp add: Cons.IH split: sum.splits prod.splits)
qed

lemma exportItems_trace:
  assumes "exportItems stringify engine tr outDir w catalog acc = (r, w')"
  shows "\<exists>fss. length fss \<le> length catalog
     \<and> process_cwd w' = process_cwd w
     \<and> writes w' = writes w @ map (itemWrite stringify (process_cwd w) outDir) (zip catalog fss)
     \<and> (\<forall>i < length fss. map file_path (fss ! i)
            = map (\<lambda>f. ''registry/chris-lally/'' @ slugForItem (catalog ! i) @ ''/'' @ target f) (files (catalog ! i)))
     \<and> (case r of
           Inl e \<Rightarrow> length fss < length catalog
         | Inr out \<Rightarrow> length fss = length catalog \<and> out = acc @ map (\<lambda>(item, fs). manifestItem item fs) (zip catalog fss))"
  using assms
proof (induction catalog arbitrary: w acc)
  case Nil
  then show ?case by auto
next
  case (Cons item rest)
  show ?case
  proof (cases "readTemplateContent engine w tr item")
    case (Inl e)
    with Cons.prems have "r = Inl e" "w' = w" by auto
    then show ?thesis by (intro exI [of _ "[]"]) simp
  next
    case (Inr fs)
    let ?p = "resolve (process_cwd w) [outDir, slugForItem item @ ''.json'']"
    obtain r1 w1 where wj: "writeJson stringify w ?p (ItemDocument (exportedItem item fs)) = (r1, w1)"
      by (cases "writeJson stringify w ?p (ItemDocument (exportedItem item fs))") auto
    have shape: "map file_path fs
        = map (\<lambda>f. ''registry/chris-lally/'' @ slugForItem item @ ''/'' @ target f) (files item)"
      using Inr readTemplateFiles_shape by (simp add: readTemplateContent_def)
    show ?thesis
    proof (cases r1)
      case (Inl e)
      with Cons.prems Inr wj have "r = Inl e" "w' = w1" by auto
      moreover have "writes w1 = writes w \<and> process_cwd w1 = process_cwd w"
        using wj Inl writeJson_failed by blast
      ultimately show ?thesis by (intro exI [of _ "[]"]) simp
    next
      case (Inr u)
      with Cons.prems \<open>readTemplateContent engine w tr item = Inr fs\<close> wj
      have rec: "exportItems stringify engine tr outDir w1 rest (acc @ [manifestItem item fs]) = (r, w')"
        by simp
      have eff: "writes w1 = writes w @ [(?p, stringify (ItemDocument (exportedItem item fs)) @ [CHR 0x0A])]"
        and cwd: "process_cwd w1 = process_cwd w"
        using wj Inr writeJson_ok by blast+
      from Cons.IH [OF rec] obtain fss where fss:
        "length fss \<le> length rest"
        "process_cwd w' = process_cwd w1"
        "writes w' = writes w1 @ map (itemWrite stringify (process_cwd w1) outDir) (zip rest fss)"
        "\<forall>i < length fss. map file_path (fss ! i)
            = map (\<lambda>f. ''registry/chris-lally/'' @ slugForItem (rest ! i) @ ''/'' @ target f) (files (rest ! i))"
        "case r of
           Inl e \<Rightarrow> length fss < length rest
         | Inr out \<Rightarrow> length fss = length rest
             \<and> out = (acc @ [manifestItem item fs]) @ map (\<lambda>(item, fs). manifestItem item fs) (zip rest fss)"
        by blast
      have paths: "\<forall>i < length (fs # fss). map file_path ((fs # fss) ! i)
            = map (\<lambda>f. ''registry/chris-lally/'' @ slugForItem ((item # rest) ! i) @ ''/'' @ target f)
                (files ((item # rest) ! i))"
        using shape fss(4) by (auto simp: nth_Cons split: nat.splits)
      show ?thesis
        using fss(1,2,3,5) eff cwd paths
        by (intro exI [of _ "fs # fss"]) (auto simp: itemWrite_def split: sum.splits)
    qed
  qed
qed

lemma zip_take_short: "length ys \<le> k \<Longrightarrow> zip (take k xs) ys = zip xs ys"
proof (induction xs arbitrary: k ys)
  case Nil
  show ?case by simp
next
  case (Cons x xs)
  show ?case
  proof (cases ys)
    case Nil
    then show ?thesis by simp
  next
    case (Cons y ys')
    with Cons.prems obtain k' where "k = Suc k'" "length ys' \<le> k'" by (cases k) auto
    with Cons.IH [of ys' k'] Cons show ?thesis by simp
  qed
qed

lemma exportCatalog_trace:
  assumes "fst (exportCatalog stringify engine moduleDir catalog w outDir) = Inr ()"
  shows "\<exists>docs manifest.
      length docs = length catalog
    \<and> writes (snd (exportCatalog stringify engine moduleDir catalog w outDir))
        = writes w
          @ map (\<lambda>(item, doc). (resolve (process_cwd w) [outDir, slugForItem item @ ''.json''],
                                  stringify (ItemDocument doc) @ [CHR 0x0A])) (zip catalog docs)
          @ [(resolve (process_cwd w) [outDir, ''registry.json''],
              stringify (ManifestDocument manifest) @ [CHR 0x0A])]
    \<and> length (manifest_items manifest) = length catalog
    \<and> (\<forall>i < length catalog.
          exported_name (docs ! i) = slugForItem (catalog ! i)
        \<and> entry_name (manifest_items manifest ! i) = slugForItem (catalog ! i)
        \<and> map entry_file_path (entry_files (manifest_items manifest ! i))
            = map file_path (exported_files (docs ! i))
        \<and> map file_path (exported_files (docs ! i))
            = map (\<lambda>f. ''registry/chris-lally/'' @ slugForItem (catalog ! i) @ ''/'' @ target f)
                (files (catalog ! i)))
    \<and> node_at (snd (exportCatalog stringify engine moduleDir catalog w outDir))
          (resolve (process_cwd w) [outDir, ''registry.json''])
        = Some (File (stringify (ManifestDocument manifest) @ [CHR 0x0A]))"
proof -
  let ?tr = "path_string (resolve (process_cwd w) [moduleDir, ''../../templates''])"
  obtain r1 w1 where items: "exportItems stringify engine ?tr outDir w catalog [] = (r1, w1)"
    by (cases "exportItems stringify engine ?tr outDir w catalog []") auto
  from assms have ex: "existsSync w (resolve (process_cwd w) [moduleDir, ''../../templates''])"
    by (auto simp: exportCatalog_def Let_def split: if_splits)
  from assms items ex obtain out where out: "r1 = Inr out"
    by (cases r1) (auto simp: exportCatalog_def Let_def)
  let ?m = "\<lparr> manifest_schema = ''https://ui.shadcn.com/schema/registry.json'',
              manifest_name = ''chris-lally'',
              manifest_homepage = ''https://github.com/ChrisLally/lally-ui'',
              manifest_items = out \<rparr>"
  let ?reg = "resolve (process_cwd w1) [outDir, ''registry.json'']"
  have run: "exportCatalog stringify engine moduleDir catalog w outDir
      = writeJson stringify w1 ?reg (ManifestDocument ?m)"
    using items ex out by (simp add: exportCatalog_def Let_def)
  obtain w2 where wj: "writeJson stringify w1 ?reg (ManifestDocument ?m) = (Inr (), w2)"
    using assms run by (cases "writeJson stringify w1 ?reg (ManifestDocument ?m)") auto
  from exportItems_trace [OF items] out obtain fss where fss:
    "length fss = length catalog"
    "process_cwd w1 = process_cwd w"
    "writes w1 = writes w @ map (itemWrite stringify (process_cwd w) outDir) (zip catalog fss)"
    "\<forall>i < length fss. map file_path (fss ! i)
        = map (\<lambda>f. ''registry/chris-lally/'' @ slugForItem (catalog ! i) @ ''/'' @ target f) (files (catalog ! i))"
    "out = map (\<lambda>(item, fs). manifestItem item fs) (zip catalog fss)"
    by auto
  let ?docs = "map (\<lambda>(item, fs). exportedItem item fs) (zip catalog fss)"
  have w2: "writes w2 = writes w1 @ [(?reg, stringify (ManifestDocument ?m) @ [CHR 0x0A])]"
    and at: "node_at w2 ?reg = Some (File (stringify (ManifestDocument ?m) @ [CHR 0x0A]))"
    using writeJson_ok [OF wj] by simp_all
  have log: "map (itemWrite stringify (process_cwd w) outDir) (zip catalog fss)
      = map (\<lambda>(item, doc). (resolve (process_cwd w) [outDir, slugForItem item @ ''.json''],
                                  stringify (ItemDocument doc) @ [CHR 0x0A])) (zip catalog ?docs)"
    using fss(1) by (intro nth_equalityI) (simp_all add: itemWrite_def)
  have each: "exported_name (?docs ! i) = slugForItem (catalog ! i)
        \<and> entry_name (manifest_items ?m ! i) = slugForItem (catalog ! i)
        \<and> map entry_file_path (entry_files (manifest_items ?m ! i))
            = map file_path (exported_files (?docs ! i))
        \<and> map file_path (exported_files (?docs ! i))
            = map (\<lambda>f. ''registry/chris-lally/'' @ slugForItem (catalog ! i) @ ''/'' @ target f)
                (files (catalog ! i))" if "i < length catalog" for i
    using that fss(1,4,5) by (simp add: exportedItem_def manifestItem_def comp_def)
  have "length ?docs = length catalog" and "length (manifest_items ?m) = length catalog"
    using fss(1,5) by simp_all
  with run wj w2 at log each fss(2,3) show ?thesis
    by (intro exI [of _ ?docs] exI [of _ ?m]) (simp del: map_map)
qed

lemma mkdir_recursive_nodes:
  assumes "mkdir_recursive w d = Inr w1"
  shows "node_at w1 q = (if prefix q d then Some Dir else node_at w q)"
        and "\<forall>q. prefix q d \<longrightarrow> \<not> is_file (node_at w q)"
proof -
  from assms have none: "find (\<lambda>q. is_file (node_at w q)) (prefixes d) = None"
    and w1: "w1 = w\<lparr>nodes := (\<lambda>q. if q \<noteq> [] \<and> prefix q d then Some Dir else nodes w q)\<rparr>"
    by (auto simp: mkdir_recursive_def split: option.splits)
  from w1 show "node_at w1 q = (if prefix q d then Some Dir else node_at w q)"
    by (auto simp: node_at_def)
  from none show "\<forall>q. prefix q d \<longrightarrow> \<not> is_file (node_at w q)"
    by (simp add: find_None_iff)
qed

lemma writeFile_nodes:
  assumes "writeFile w p c = Inr w1"
  shows "node_at w1 q = (if q = p then Some (File c) else node_at w q)"
  using assms
  by (auto simp: writeFile_def node_at_def split: option.splits node.splits if_splits)

lemma writeJson_nodes:
  assumes "writeJson stringify w p v = (r, w1)" and "q \<noteq> p" and "is_file (node_at w1 q)"
  shows "is_file (node_at w q)"
proof (cases "mkdir_recursive w (dirname p)")
  case (Inl e)
  with assms show ?thesis by (simp add: writeJson_def)
next
  case (Inr wa)
  note mk = mkdir_recursive_nodes(1) [OF Inr]
  show ?thesis
  proof (cases "writeFile wa p (stringify v @ [CHR 0x0A])")
    case (Inl e)
    with assms Inr have "w1 = wa" by (simp add: writeJson_def)
    with assms(3) mk [of q] show ?thesis by (auto simp: is_file_def split: if_splits)
  next
    case wr: (Inr wb)
    with assms Inr have "w1 = wb" by (simp add: writeJson_def)
    with assms(2,3) writeFile_nodes [OF wr, of q] mk [of q] show ?thesis
      by (auto simp: is_file_def split: if_splits)
  qed
qed

lemma exportItems_not_file:
  assumes "exportItems stringify engine tr outDir w catalog acc = (r, w')"
    and "\<not> is_file (node_at w s)"
    and "s \<notin> (\<lambda>item. resolve (process_cwd w) [outDir, slugForItem item @ ''.json'']) ` set catalog"
  shows "\<not> is_file (node_at w' s)"
  using assms
proof (induction catalog arbitrary: w acc)
  case Nil
  then show ?case by simp
next
  case (Cons item rest)
  show ?case
  proof (cases "readTemplateContent engine w tr item")
    case (Inl e)
    with Cons.prems show ?thesis by auto
  next
    case (Inr fs)
    let ?p = "resolve (process_cwd w) [outDir, slugForItem item @ ''.json'']"
    obtain r1 w1 where wj: "writeJson stringify w ?p (ItemDocument (exportedItem item fs)) = (r1, w1)"
      by (cases "writeJson stringify w ?p (ItemDocument (exportedItem item fs))") auto
    have sp: "s \<noteq> ?p" using Cons.prems(3) by auto
    have nf: "\<not> is_file (node_at w1 s)"
      using writeJson_nodes [OF wj sp] Cons.prems(2) by blast
    show ?thesis
    proof (cases r1)
      case (Inl e)
      with Cons.prems Inr wj nf show ?thesis by auto
    next
      case r: (Inr u)
      then have cwd: "process_cwd w1 = process_cwd w"
        using wj writeJson_ok by blast
      from Cons.prems(1) Inr wj r
      have rec: "exportItems stringify engine tr outDir w1 rest (acc @ [manifestItem item fs]) = (r, w')"
        by simp
      show ?thesis
        using Cons.IH [OF rec nf] Cons.prems(3) cwd by auto
    qed
  qed
qed

lemma resolve_child:
  assumes "plain_segment n"
  shows "resolve pcwd [d, n] = resolve pcwd [d] @ [n]"
proof -
  from assms have n: "n \<noteq> []" "hd n \<noteq> CHR ''/''" "splitSlash n = [n]" "n \<noteq> ''.''" "n \<noteq> ''..''"
    by (auto simp: plain_segment_def splitSlash_plain dest: hd_in_set)
  show ?thesis
    by (cases "d = []"; cases "hd d = CHR ''/''")
       (simp_all add: resolve_def norm_split n splitSlash_append [of n "[]", simplified])
qed

lemma replaceGlobal_one_char:
  assumes "b \<noteq> CHR ''$''"
  shows "replaceGlobal [Lit a] [b] scanned rest = map (\<lambda>c. if c = a then b else c) rest"
proof (induction rest arbitrary: scanned)
  case Nil
  show ?case by (simp add: replaceGlobal_Nil)
next
  case (Cons c cs)
  show ?case
  proof (cases "c = a")
    case True
    then have "matchesAt [Lit a] (c # cs)" by simp
    from replaceGlobal_match [OF _ this, of "[b]" scanned]
    show ?thesis using True Cons [of "scanned @ [a]"] by simp
  next
    case False
    then have "\<not> matchesAt [Lit a] (c # cs)" by simp
    from replaceGlobal_no_match [OF this, of "[b]" scanned]
    show ?thesis using False Cons by simp
  qed
qed

lemma slugForItem_map:
  "slugForItem item = map (\<lambda>c. if c = CHR ''/'' then CHR ''-'' else c) (item_id item)"
  using replaceGlobal_one_char [of "CHR ''-''" "CHR ''/''" "[]" "item_id item"]
  by (simp add: slugForItem_def replaceAll_def)

lemma slug_json_plain: "plain_segment (slugForItem item @ ''.json'')"
proof -
  have "CHR ''/'' \<notin> set (slugForItem item)" by (auto simp: slugForItem_map)
  moreover have "slugForItem item @ ''.json'' \<noteq> ''.''" "slugForItem item @ ''.json'' \<noteq> ''..''"
    by (auto dest!: arg_cong [where f = length])
  ultimately show ?thesis by (simp add: plain_segment_def)
qed

lemma replaceEntries_compiled:
  assumes "\<forall>(k, t) \<in> set entries. compileKey k \<noteq> None"
  shows "\<exists>out. replaceEntries engine raw entries = Inr out"
  using assms
proof (induction entries arbitrary: raw)
  case Nil
  show ?case by simp
next
  case (Cons e entries)
  obtain k t where e: "e = (k, t)" by (cases e)
  with Cons.prems obtain key where "compileKey k = Some key" by auto
  then obtain nxt where "replaceImport engine raw k t = Inr nxt"
    by (simp add: replaceImport_def)
  with Cons e show ?case by auto
qed

lemma applyImportReplacements_compiled:
  assumes "keys_compile f"
  shows "\<exists>out. applyImportReplacements engine raw (interpolateEntries ctx f) = Inr out"
proof (cases "replaceImports f")
  case None
  then show ?thesis by (simp add: applyImportReplacements_def interpolateEntries_def)
next
  case (Some entries)
  with assms have "\<forall>(k, t) \<in> set (map (\<lambda>(k, t). (k, interpolateTargetPath t ctx)) entries).
      compileKey k \<noteq> None"
    by (auto simp: keys_compile_def list_all_iff)
  from replaceEntries_compiled [OF this] Some show ?thesis
    by (simp add: applyImportReplacements_def interpolateEntries_def)
qed

lemma readTemplateFiles_succeeds:
  assumes "\<forall>f \<in> set fls. is_file (node_at w (resolve (process_cwd w) [tr, source f])) \<and> keys_compile f"
  shows "\<exists>fs. readTemplateFiles engine w tr item fls = Inr fs"
  using assms
proof (induction fls)
  case Nil
  show ?case by simp
next
  case (Cons f fls)
  then obtain c where c: "node_at w (resolve (process_cwd w) [tr, source f]) = Some (File c)"
    by (auto simp: is_file_def split: option.splits node.splits)
  from Cons.prems obtain out where
    "applyImportReplacements engine c (interpolateEntries DEFAULT_ALIASES f) = Inr out"
    using applyImportReplacements_compiled [of f engine c DEFAULT_ALIASES] by auto
  moreover from Cons obtain fs where "readTemplateFiles engine w tr item fls = Inr fs" by auto
  ultimately show ?case using c by (simp add: Let_def existsSync_def readFile_def)
qed

lemma writeJson_succeeds:
  assumes "\<forall>q. prefix q (dirname p) \<longrightarrow> \<not> is_file (node_at w q)"
    and "node_at w p \<noteq> Some Dir" and "p \<noteq> []"
  shows "\<exists>w1. writeJson stringify w p v = (Inr (), w1)
      \<and> (\<forall>q. node_at w1 q = (if q = p then Some (File (stringify v @ [CHR 0x0A]))
                              else if prefix q (dirname p) then Some Dir else node_at w q))"
proof -
  let ?wa = "w\<lparr>nodes := (\<lambda>q. if q \<noteq> [] \<and> prefix q (dirname p) then Some Dir else nodes w q)\<rparr>"
  have mk: "mkdir_recursive w (dirname p) = Inr ?wa"
    using assms(1) by (rule mkdir_ok)
  have np: "\<not> prefix p (dirname p)"
  proof
    assume "prefix p (dirname p)"
    then have "length p \<le> length (butlast p)" unfolding dirname_def by (rule prefix_length_le)
    with assms(3) show False by (simp add: length_butlast) (cases p; simp)
  qed
  have a: "node_at ?wa p \<noteq> Some Dir"
    using assms(2,3) np by (auto simp: node_at_def split: if_splits)
  have b: "node_at ?wa (dirname p) = Some Dir" by (simp add: node_at_def)
  let ?wb = "?wa\<lparr>nodes := (nodes ?wa)(p \<mapsto> File (stringify v @ [CHR 0x0A])),
                   writes := writes ?wa @ [(p, stringify v @ [CHR 0x0A])]\<rparr>"
  have wr: "writeFile ?wa p (stringify v @ [CHR 0x0A]) = Inr ?wb"
    using a b by (auto simp: writeFile_def split: option.splits node.splits)
  have "writeJson stringify w p v = (Inr (), ?wb)"
    by (simp add: writeJson_def mk wr)
  moreover have "node_at ?wb q = (if q = p then Some (File (stringify v @ [CHR 0x0A]))
                              else if prefix q (dirname p) then Some Dir else node_at w q)" for q
    using assms(3) by (auto simp: node_at_def)
  ultimately show ?thesis by blast
qed

lemma writeJson_child_succeeds:
  assumes "\<forall>q. prefix q base \<longrightarrow> \<not> is_file (node_at w q)"
    and "node_at w (base @ [n]) \<noteq> Some Dir"
  shows "\<exists>w1. writeJson stringify w (base @ [n]) v = (Inr (), w1)
      \<and> process_cwd w1 = process_cwd w
      \<and> (\<forall>q. prefix q base \<longrightarrow> \<not> is_file (node_at w1 q))
      \<and> (\<forall>q. is_file (node_at w q) \<longrightarrow> is_file (node_at w1 q))
      \<and> (\<forall>q. node_at w1 q = Some Dir \<longrightarrow> node_at w q = Some Dir \<or> prefix q base)"
proof -
  have d: "dirname (base @ [n]) = base" by (simp add: dirname_def)
  from writeJson_succeeds [of "base @ [n]" w stringify v] assms
  obtain w1 where w1: "writeJson stringify w (base @ [n]) v = (Inr (), w1)"
    and nodes: "\<And>q. node_at w1 q = (if q = base @ [n] then Some (File (stringify v @ [CHR 0x0A]))
                              else if prefix q base then Some Dir else node_at w q)"
    unfolding d by auto
  have "process_cwd w1 = process_cwd w" using writeJson_ok [OF w1] by simp
  moreover have "\<not> is_file (node_at w1 q)" if "prefix q base" for q
    using that nodes [of q] by (auto simp: is_file_def dest: prefix_length_le)
  moreover have "is_file (node_at w1 q)" if "is_file (node_at w q)" for q
    using that nodes [of q] assms(1) by (auto simp: is_file_def)
  moreover have "node_at w q = Some Dir \<or> prefix q base" if "node_at w1 q = Some Dir" for q
    using that nodes [of q] by (auto split: if_splits)
  ultimately show ?thesis using w1 by blast
qed

lemma exportItems_succeeds:
  assumes "\<forall>item \<in> set catalog. \<forall>f \<in> set (files item).
             is_file (node_at w (resolve (process_cwd w) [tr, source f])) \<and> keys_compile f"
    and "\<forall>q. prefix q (resolve (process_cwd w) [outDir]) \<longrightarrow> \<not> is_file (node_at w q)"
    and "\<forall>item \<in> set catalog.
           node_at w (resolve (process_cwd w) [outDir, slugForItem item @ ''.json'']) \<noteq> Some Dir"
  shows "\<exists>out w'. exportItems stringify engine tr outDir w catalog acc = (Inr out, w')
      \<and> process_cwd w' = process_cwd w
      \<and> (\<forall>q. prefix q (resolve (process_cwd w) [outDir]) \<longrightarrow> \<not> is_file (node_at w' q))
      \<and> (\<forall>q. node_at w' q = Some Dir \<longrightarrow>
             node_at w q = Some Dir \<or> prefix q (resolve (process_cwd w) [outDir]))"
  using assms
proof (induction catalog arbitrary: w acc)
  case Nil
  then show ?case by simp
next
  case (Cons item rest)
  let ?base = "resolve (process_cwd w) [outDir]"
  have child: "resolve (process_cwd w) [outDir, slugForItem it @ ''.json'']
      = ?base @ [slugForItem it @ ''.json'']" for it
    using slug_json_plain by (rule resolve_child)
  from Cons.prems(1) obtain fs where fs: "readTemplateContent engine w tr item = Inr fs"
    using readTemplateFiles_succeeds [of "files item" w tr engine item]
    by (auto simp: readTemplateContent_def)
  from Cons.prems(3) have "node_at w (?base @ [slugForItem item @ ''.json'']) \<noteq> Some Dir"
    by (simp add: child)
  from writeJson_child_succeeds [OF Cons.prems(2) this, of stringify "ItemDocument (exportedItem item fs)"]
  obtain w1 where w1: "writeJson stringify w (?base @ [slugForItem item @ ''.json''])
        (ItemDocument (exportedItem item fs)) = (Inr (), w1)"
    and cwd: "process_cwd w1 = process_cwd w"
    and pre: "\<forall>q. prefix q ?base \<longrightarrow> \<not> is_file (node_at w1 q)"
    and keep: "\<forall>q. is_file (node_at w q) \<longrightarrow> is_file (node_at w1 q)"
    and dirs: "\<forall>q. node_at w1 q = Some Dir \<longrightarrow> node_at w q = Some Dir \<or> prefix q ?base"
    by blast
  have a1: "\<forall>item \<in> set rest. \<forall>f \<in> set (files item).
             is_file (node_at w1 (resolve (process_cwd w1) [tr, source f])) \<and> keys_compile f"
    using Cons.prems(1) keep cwd by simp
  have a2: "\<forall>q. prefix q (resolve (process_cwd w1) [outDir]) \<longrightarrow> \<not> is_file (node_at w1 q)"
    using pre cwd by simp
  have a3: "\<forall>item \<in> set rest.
           node_at w1 (resolve (process_cwd w1) [outDir, slugForItem item @ ''.json'']) \<noteq> Some Dir"
  proof
    fix it assume "it \<in> set rest"
    with Cons.prems(3) have "node_at w (?base @ [slugForItem it @ ''.json'']) \<noteq> Some Dir"
      by (simp add: child)
    moreover have "\<not> prefix (?base @ [slugForItem it @ ''.json'']) ?base"
      by (auto dest: prefix_length_le)
    ultimately show "node_at w1 (resolve (process_cwd w1) [outDir, slugForItem it @ ''.json'']) \<noteq> Some Dir"
      using dirs by (auto simp: cwd child)
  qed
  from Cons.IH [OF a1 a2 a3, of "acc @ [manifestItem item fs]"]
  obtain out w' where rec: "exportItems stringify engine tr outDir w1 rest (acc @ [manifestItem item fs]) = (Inr out, w')"
    and r1: "process_cwd w' = process_cwd w1"
    and r2: "\<forall>q. prefix q (resolve (process_cwd w1) [outDir]) \<longrightarrow> \<not> is_file (node_at w' q)"
    and r3: "\<forall>q. node_at w' q = Some Dir \<longrightarrow>
               node_at w1 q = Some Dir \<or> prefix q (resolve (process_cwd w1) [outDir])"
    by blast
  have "exportItems stringify engine tr outDir w (item # rest) acc = (Inr out, w')"
    using fs w1 rec by (simp add: child)
  moreover have "\<forall>q. node_at w' q = Some Dir \<longrightarrow> node_at w q = Some Dir \<or> prefix q ?base"
    using r3 dirs cwd by auto
  ultimately show ?case using r1 r2 cwd by auto
qed

lemma exportCatalog_succeeds:
  assumes "export_ready moduleDir catalog w outDir"
  shows "fst (exportCatalog stringify engine moduleDir catalog w outDir) = Inr ()"
proof -
  let ?tr = "path_string (resolve (process_cwd w) [moduleDir, ''../../templates''])"
  let ?base = "resolve (process_cwd w) [outDir]"
  from assms have ex: "existsSync w (resolve (process_cwd w) [moduleDir, ''../../templates''])"
    and src: "\<forall>item \<in> set catalog. \<forall>f \<in> set (files item).
             is_file (node_at w (resolve (process_cwd w) [?tr, source f])) \<and> keys_compile f"
    and out: "\<forall>q. prefix q ?base \<longrightarrow> \<not> is_file (node_at w q)"
    and tgt: "\<forall>item \<in> set catalog.
           node_at w (resolve (process_cwd w) [outDir, slugForItem item @ ''.json'']) \<noteq> Some Dir"
    and reg: "node_at w (resolve (process_cwd w) [outDir, ''registry.json'']) \<noteq> Some Dir"
    by (auto simp: export_ready_def Let_def list_all_iff)
  from exportItems_succeeds [OF src out tgt, of stringify engine "[]"]
  obtain items w1 where run: "exportItems stringify engine ?tr outDir w catalog [] = (Inr items, w1)"
    and cwd: "process_cwd w1 = process_cwd w"
    and pre: "\<forall>q. prefix q ?base \<longrightarrow> \<not> is_file (node_at w1 q)"
    and dirs: "\<forall>q. node_at w1 q = Some Dir \<longrightarrow> node_at w q = Some Dir \<or> prefix q ?base"
    by blast
  have child: "resolve (process_cwd w) [outDir, ''registry.json''] = ?base @ [''registry.json'']"
    by (rule resolve_child) (simp add: plain_segment_def)
  have "\<not> prefix (?base @ [''registry.json'']) ?base"
    by (auto dest: prefix_length_le)
  with reg dirs have "node_at w1 (?base @ [''registry.json'']) \<noteq> Some Dir"
    by (auto simp: child)
  from writeJson_child_succeeds [OF pre this]
  have "\<exists>w2. writeJson stringify w1 (?base @ [''registry.json''])
      (ManifestDocument \<lparr> manifest_schema = ''https://ui.shadcn.com/schema/registry.json'',
                    manifest_name = ''chris-lally'',
                    manifest_homepage = ''https://github.com/ChrisLally/lally-ui'',
                    manifest_items = items \<rparr>) = (Inr (), w2)"
    by blast
  then show ?thesis
    using ex run by (auto simp: exportCatalog_def Let_def cwd child)
qed

lemma writeJson_keeps_files:
  assumes "writeJson stringify w p v = (r, w1)" and "is_file (node_at w q)"
  shows "is_file (node_at w1 q)"
proof (cases "mkdir_recursive w (dirname p)")
  case (Inl e)
  with assms show ?thesis by (simp add: writeJson_def)
next
  case (Inr wa)
  have a: "is_file (node_at wa q)"
    using mkdir_recursive_nodes(1) [OF Inr, of q] mkdir_recursive_nodes(2) [OF Inr] assms(2) by auto
  show ?thesis
  proof (cases "writeFile wa p (stringify v @ [CHR 0x0A])")
    case (Inl e)
    with assms Inr a show ?thesis by (simp add: writeJson_def)
  next
    case wr: (Inr wb)
    with assms Inr have "w1 = wb" by (simp add: writeJson_def)
    with a writeFile_nodes [OF wr, of q] show ?thesis by (simp add: is_file_def)
  qed
qed

lemma exportItems_keeps_files:
  assumes "exportItems stringify engine tr outDir w catalog acc = (r, w')"
    and "is_file (node_at w q)"
  shows "is_file (node_at w' q)"
  using assms
proof (induction catalog arbitrary: w acc)
  case Nil
  then show ?case by simp
next
  case (Cons item rest)
  show ?case
  proof (cases "readTemplateContent engine w tr item")
    case (Inl e)
    with Cons.prems show ?thesis by auto
  next
    case (Inr fs)
    let ?p = "resolve (process_cwd w) [outDir, slugForItem item @ ''.json'']"
    obtain r1 w1 where wj: "writeJson stringify w ?p (ItemDocument (exportedItem item fs)) = (r1, w1)"
      by (cases "writeJson stringify w ?p (ItemDocument (exportedItem item fs))") auto
    have f1: "is_file (node_at w1 q)"
      using wj Cons.prems(2) by (rule writeJson_keeps_files)
    show ?thesis
    proof (cases r1)
      case (Inl e)
      with Cons.prems Inr wj f1 show ?thesis by auto
    next
      case r: (Inr u)
      from Cons.prems(1) Inr wj r
      have "exportItems stringify engine tr outDir w1 rest (acc @ [manifestItem item fs]) = (r, w')"
        by simp
      then show ?thesis using f1 by (rule Cons.IH)
    qed
  qed
qed

lemma exportItems_written_files:
  assumes "exportItems stringify engine tr outDir w catalog acc = (r, w')"
  shows "\<forall>(p, c) \<in> set (drop (length (writes w)) (writes w')). is_file (node_at w' p)"
  using assms
proof (induction catalog arbitrary: w acc)
  case Nil
  then show ?case by simp
next
  case (Cons item rest)
  show ?case
  proof (cases "readTemplateContent engine w tr item")
    case (Inl e)
    with Cons.prems show ?thesis by auto
  next
    case (Inr fs)
    let ?p = "resolve (process_cwd w) [outDir, slugForItem item @ ''.json'']"
    let ?v = "ItemDocument (exportedItem item fs)"
    obtain r1 w1 where wj: "writeJson stringify w ?p ?v = (r1, w1)"
      by (cases "writeJson stringify w ?p ?v") auto
    show ?thesis
    proof (cases r1)
      case (Inl e)
      with Cons.prems Inr wj have "w' = w1" by auto
      with wj Inl writeJson_failed [of stringify w ?p ?v e w1] show ?thesis by simp
    next
      case r: (Inr u)
      from Cons.prems(1) Inr wj r
      have rec: "exportItems stringify engine tr outDir w1 rest (acc @ [manifestItem item fs]) = (r, w')"
        by simp
      from wj r writeJson_ok [of stringify w ?p ?v u w1]
      have w1: "writes w1 = writes w @ [(?p, stringify ?v @ [CHR 0x0A])]"
        and at: "is_file (node_at w1 ?p)"
        by (simp_all add: is_file_def)
      from exportItems_trace [OF rec] obtain tl where tl: "writes w' = writes w1 @ tl" by blast
      have here: "is_file (node_at w' ?p)"
        using rec at by (rule exportItems_keeps_files)
      have "drop (length (writes w)) (writes w') = (?p, stringify ?v @ [CHR 0x0A]) # drop (length (writes w1)) (writes w')"
        by (simp add: tl w1)
      with Cons.IH [OF rec] here show ?thesis by simp
    qed
  qed
qed

lemma exportCatalog_written_files:
  assumes "fst (exportCatalog stringify engine moduleDir catalog w outDir) = Inr ()"
  shows "\<forall>(p, c) \<in> set (drop (length (writes w))
                          (writes (snd (exportCatalog stringify engine moduleDir catalog w outDir)))).
           is_file (node_at (snd (exportCatalog stringify engine moduleDir catalog w outDir)) p)"
proof -
  let ?tr = "path_string (resolve (process_cwd w) [moduleDir, ''../../templates''])"
  obtain r1 w1 where items: "exportItems stringify engine ?tr outDir w catalog [] = (r1, w1)"
    by (cases "exportItems stringify engine ?tr outDir w catalog []") auto
  from assms have ex: "existsSync w (resolve (process_cwd w) [moduleDir, ''../../templates''])"
    by (auto simp: exportCatalog_def Let_def split: if_splits)
  from assms items ex obtain out where out: "r1 = Inr out"
    by (cases r1) (auto simp: exportCatalog_def Let_def)
  let ?m = "ManifestDocument
              \<lparr> manifest_schema = ''https://ui.shadcn.com/schema/registry.json'',
                manifest_name = ''chris-lally'',
                manifest_homepage = ''https://github.com/ChrisLally/lally-ui'',
                manifest_items = out \<rparr>"
  let ?reg = "resolve (process_cwd w1) [outDir, ''registry.json'']"
  have run: "exportCatalog stringify engine moduleDir catalog w outDir = writeJson stringify w1 ?reg ?m"
    using items ex out by (simp add: exportCatalog_def Let_def)
  obtain w2 where wj: "writeJson stringify w1 ?reg ?m = (Inr (), w2)"
    using assms run by (cases "writeJson stringify w1 ?reg ?m") auto
  from exportItems_trace [OF items] obtain new where new: "writes w1 = writes w @ new" by blast
  have w2: "writes w2 = writes w1 @ [(?reg, stringify ?m @ [CHR 0x0A])]"
    and at: "is_file (node_at w2 ?reg)"
    using writeJson_ok [OF wj] by (simp_all add: is_file_def)
  have first: "\<forall>(p, c) \<in> set new. is_file (node_at w1 p)"
    using exportItems_written_files [OF items] by (simp add: new)
  have "is_file (node_at w2 p)" if "(p, c) \<in> set new" for p c
    using wj first that by (auto intro: writeJson_keeps_files)
  with at show ?thesis
    unfolding run wj snd_conv by (auto simp: w2 new)
qed

lemma exportRegistry_catalog:
  "exportRegistry stringify engine moduleDir w outDir
     = exportCatalog stringify engine moduleDir listRegistryItems w outDir"
  by (simp add: exportRegistry_def)

lemma writeJson_frame:
  assumes "writeJson stringify w p v = (r, w1)" and "is_file (node_at w q)"
    and "q \<noteq> p \<or> r \<noteq> Inr ()"
  shows "node_at w1 q = node_at w q"
proof (cases "mkdir_recursive w (dirname p)")
  case (Inl e)
  with assms show ?thesis by (simp add: writeJson_def)
next
  case (Inr wa)
  have a: "node_at wa q = node_at w q"
    using mkdir_recursive_nodes(1) [OF Inr, of q] mkdir_recursive_nodes(2) [OF Inr] assms(2) by auto
  show ?thesis
  proof (cases "writeFile wa p (stringify v @ [CHR 0x0A])")
    case (Inl e)
    with assms Inr a show ?thesis by (simp add: writeJson_def)
  next
    case wr: (Inr wb)
    with assms(1) Inr have wb: "w1 = wb" "r = Inr ()" by (simp_all add: writeJson_def)
    with assms(3) have "q \<noteq> p" by simp
    with a writeFile_nodes [OF wr, of q] wb show ?thesis by simp
  qed
qed

lemma exportItems_frame:
  assumes "exportItems stringify engine tr outDir w catalog acc = (r, w')"
    and "is_file (node_at w q)"
    and "q \<notin> fst ` set (drop (length (writes w)) (writes w'))"
  shows "node_at w' q = node_at w q"
  using assms
proof (induction catalog arbitrary: w acc)
  case Nil
  then show ?case by simp
next
  case (Cons item rest)
  show ?case
  proof (cases "readTemplateContent engine w tr item")
    case (Inl e)
    with Cons.prems show ?thesis by auto
  next
    case (Inr fs)
    let ?p = "resolve (process_cwd w) [outDir, slugForItem item @ ''.json'']"
    let ?v = "ItemDocument (exportedItem item fs)"
    obtain r1 w1 where wj: "writeJson stringify w ?p ?v = (r1, w1)"
      by (cases "writeJson stringify w ?p ?v") auto
    show ?thesis
    proof (cases r1)
      case (Inl e)
      with Cons.prems Inr wj have "w' = w1" by auto
      moreover have "node_at w1 q = node_at w q"
        using wj Cons.prems(2) Inl by (intro writeJson_frame [of stringify w ?p ?v r1 w1 q]) simp_all
      ultimately show ?thesis by simp
    next
      case r: (Inr u)
      from Cons.prems(1) Inr wj r
      have rec: "exportItems stringify engine tr outDir w1 rest (acc @ [manifestItem item fs]) = (r, w')"
        by simp
      from wj r writeJson_ok [of stringify w ?p ?v u w1]
      have w1: "writes w1 = writes w @ [(?p, stringify ?v @ [CHR 0x0A])]"
        by simp
      from exportItems_trace [OF rec] obtain tl where tl: "writes w' = writes w1 @ tl" by blast
      have dr: "drop (length (writes w)) (writes w')
          = (?p, stringify ?v @ [CHR 0x0A]) # drop (length (writes w1)) (writes w')"
        by (simp add: tl w1)
      with Cons.prems(3) have qp: "q \<noteq> ?p"
        and rest: "q \<notin> fst ` set (drop (length (writes w1)) (writes w'))"
        by auto
      have same: "node_at w1 q = node_at w q"
        using wj Cons.prems(2) qp by (intro writeJson_frame [of stringify w ?p ?v r1 w1 q]) simp_all
      with Cons.prems(2) have "is_file (node_at w1 q)" by simp
      from Cons.IH [OF rec this rest] same show ?thesis by simp
    qed
  qed
qed

lemma exportItems_contents:
  assumes "exportItems stringify engine tr outDir w catalog acc = (r, w')"
    and "distinct (map fst (drop (length (writes w)) (writes w')))"
  shows "\<forall>(p, c) \<in> set (drop (length (writes w)) (writes w')). node_at w' p = Some (File c)"
  using assms
proof (induction catalog arbitrary: w acc)
  case Nil
  then show ?case by simp
next
  case (Cons item rest)
  show ?case
  proof (cases "readTemplateContent engine w tr item")
    case (Inl e)
    with Cons.prems show ?thesis by auto
  next
    case (Inr fs)
    let ?p = "resolve (process_cwd w) [outDir, slugForItem item @ ''.json'']"
    let ?v = "ItemDocument (exportedItem item fs)"
    obtain r1 w1 where wj: "writeJson stringify w ?p ?v = (r1, w1)"
      by (cases "writeJson stringify w ?p ?v") auto
    show ?thesis
    proof (cases r1)
      case (Inl e)
      with Cons.prems Inr wj have "w' = w1" by auto
      with wj Inl writeJson_failed [of stringify w ?p ?v e w1] show ?thesis by simp
    next
      case r: (Inr u)
      from Cons.prems(1) Inr wj r
      have rec: "exportItems stringify engine tr outDir w1 rest (acc @ [manifestItem item fs]) = (r, w')"
        by simp
      from wj r writeJson_ok [of stringify w ?p ?v u w1]
      have w1: "writes w1 = writes w @ [(?p, stringify ?v @ [CHR 0x0A])]"
        and at: "node_at w1 ?p = Some (File (stringify ?v @ [CHR 0x0A]))"
        by simp_all
      from exportItems_trace [OF rec] obtain tl where tl: "writes w' = writes w1 @ tl" by blast
      have dr: "drop (length (writes w)) (writes w')
          = (?p, stringify ?v @ [CHR 0x0A]) # drop (length (writes w1)) (writes w')"
        by (simp add: tl w1)
      with Cons.prems(2) have fresh: "?p \<notin> fst ` set (drop (length (writes w1)) (writes w'))"
        and dist: "distinct (map fst (drop (length (writes w1)) (writes w')))"
        by simp_all
      have "is_file (node_at w1 ?p)" using at by (simp add: is_file_def)
      from exportItems_frame [OF rec this fresh] at
      have here: "node_at w' ?p = Some (File (stringify ?v @ [CHR 0x0A]))" by simp
      from Cons.IH [OF rec dist] here show ?thesis unfolding dr by simp
    qed
  qed
qed

lemma exportCatalog_contents:
  assumes "fst (exportCatalog stringify engine moduleDir catalog w outDir) = Inr ()"
    and "distinct (map fst (drop (length (writes w))
            (writes (snd (exportCatalog stringify engine moduleDir catalog w outDir)))))"
  shows "\<forall>(p, c) \<in> set (drop (length (writes w))
                          (writes (snd (exportCatalog stringify engine moduleDir catalog w outDir)))).
           node_at (snd (exportCatalog stringify engine moduleDir catalog w outDir)) p = Some (File c)"
proof -
  let ?tr = "path_string (resolve (process_cwd w) [moduleDir, ''../../templates''])"
  obtain r1 w1 where items: "exportItems stringify engine ?tr outDir w catalog [] = (r1, w1)"
    by (cases "exportItems stringify engine ?tr outDir w catalog []") auto
  from assms have ex: "existsSync w (resolve (process_cwd w) [moduleDir, ''../../templates''])"
    by (auto simp: exportCatalog_def Let_def split: if_splits)
  from assms items ex obtain out where out: "r1 = Inr out"
    by (cases r1) (auto simp: exportCatalog_def Let_def)
  let ?m = "ManifestDocument
              \<lparr> manifest_schema = ''https://ui.shadcn.com/schema/registry.json'',
                manifest_name = ''chris-lally'',
                manifest_homepage = ''https://github.com/ChrisLally/lally-ui'',
                manifest_items = out \<rparr>"
  let ?reg = "resolve (process_cwd w1) [outDir, ''registry.json'']"
  have run: "exportCatalog stringify engine moduleDir catalog w outDir = writeJson stringify w1 ?reg ?m"
    using items ex out by (simp add: exportCatalog_def Let_def)
  obtain w2 where wj: "writeJson stringify w1 ?reg ?m = (Inr (), w2)"
    using assms run by (cases "writeJson stringify w1 ?reg ?m") auto
  from exportItems_trace [OF items] obtain new where new: "writes w1 = writes w @ new" by blast
  have w2: "writes w2 = writes w1 @ [(?reg, stringify ?m @ [CHR 0x0A])]"
    and at: "node_at w2 ?reg = Some (File (stringify ?m @ [CHR 0x0A]))"
    using writeJson_ok [OF wj] by simp_all
  from assms(2) have dist: "distinct (map fst new)" and fresh: "?reg \<notin> fst ` set new"
    unfolding run wj snd_conv by (simp_all add: w2 new)
  have first: "\<forall>(p, c) \<in> set new. node_at w1 p = Some (File c)"
    using exportItems_contents [OF items] dist by (simp add: new)
  have "node_at w2 p = Some (File c)" if "(p, c) \<in> set new" for p c
  proof -
    from first that have a: "node_at w1 p = Some (File c)" by auto
    then have "is_file (node_at w1 p)" by (simp add: is_file_def)
    moreover from fresh that have "p \<noteq> ?reg" by force
    ultimately have "node_at w2 p = node_at w1 p"
      using wj by (intro writeJson_frame [of stringify w1 ?reg ?m "Inr ()" w2 p]) simp_all
    with a show ?thesis by simp
  qed
  with at show ?thesis
    unfolding run wj snd_conv by (auto simp: w2 new)
qed

lemma export_paths_distinct:
  assumes "distinct (map slugForItem catalog)"
    and "''registry'' \<notin> set (map slugForItem catalog)"
  shows "distinct (map (\<lambda>item. resolve pcwd [outDir, slugForItem item @ ''.json'']) catalog
                   @ [resolve pcwd [outDir, ''registry.json'']])"
proof -
  let ?base = "resolve pcwd [outDir]"
  have child: "resolve pcwd [outDir, slugForItem it @ ''.json'']
      = ?base @ [slugForItem it @ ''.json'']" for it
    using slug_json_plain by (rule resolve_child)
  have reg: "resolve pcwd [outDir, ''registry.json''] = ?base @ [''registry.json'']"
    by (rule resolve_child) (simp add: plain_segment_def)
  have m: "map (\<lambda>item. resolve pcwd [outDir, slugForItem item @ ''.json'']) catalog
      = map (\<lambda>s. ?base @ [s @ ''.json'']) (map slugForItem catalog)"
    by (simp add: child)
  have "inj_on (\<lambda>s. ?base @ [s @ ''.json'']) (set (map slugForItem catalog))"
    by (rule inj_onI) simp
  with assms(1) have d: "distinct (map (\<lambda>s. ?base @ [s @ ''.json'']) (map slugForItem catalog))"
    by (simp only: distinct_map)
  have n: "?base @ [''registry.json''] \<notin> set (map (\<lambda>s. ?base @ [s @ ''.json'']) (map slugForItem catalog))"
    using assms(2) by auto
  show ?thesis
    unfolding m reg using d n by simp
qed

lemma listRegistryItems_slugs:
  "distinct (map slugForItem listRegistryItems) \<and> ''registry'' \<notin> set (map slugForItem listRegistryItems)"
  by code_simp

text \<open>
  C3, amended: under the conditions of \<open>export_ready\<close> the export returns normally, and
  whenever \<open>exportCatalog\<close> returns normally, what it has written, in this order, is one
  document per item of the catalog, at \<^verbatim>\<open><outDir>/<slug>.json\<close>, and then the aggregate
  manifest at \<^verbatim>\<open><outDir>/registry.json\<close>, which is the content of that file afterwards;
  every path written holds a regular file afterwards. The manifest has one entry per item,
  named by the slug as the item's document is, and the file paths of the entry are the file
  paths of the item's document, which are \<^verbatim>\<open>registry/chris-lally/<slug>/<target>\<close> for the
  files of the item. When the slugs of the catalog are pairwise distinct and none of them
  is \<^verbatim>\<open>registry\<close>, the paths written are pairwise distinct, and afterwards the file
  \<^verbatim>\<open><outDir>/<slug>.json\<close> of every item holds the document of that item, whose file paths
  are those of the item's entry in the manifest. \<open>exportRegistry\<close> is \<open>exportCatalog\<close> for
  the catalog of the program, whose slugs are distinct and differ from \<^verbatim>\<open>registry\<close>.
\<close>

theorem exportCatalog_one_file_per_item:
  "(export_ready moduleDir catalog w outDir \<longrightarrow>
      fst (exportCatalog stringify engine moduleDir catalog w outDir) = Inr ())
   \<and> (fst (exportCatalog stringify engine moduleDir catalog w outDir) = Inr () \<longrightarrow>
      (\<exists>docs manifest.
      length docs = length catalog
    \<and> writes (snd (exportCatalog stringify engine moduleDir catalog w outDir))
        = writes w
          @ map (\<lambda>(item, doc). (resolve (process_cwd w) [outDir, slugForItem item @ ''.json''],
                                  stringify (ItemDocument doc) @ [CHR 0x0A])) (zip catalog docs)
          @ [(resolve (process_cwd w) [outDir, ''registry.json''],
              stringify (ManifestDocument manifest) @ [CHR 0x0A])]
    \<and> length (manifest_items manifest) = length catalog
    \<and> (\<forall>i < length catalog.
          exported_name (docs ! i) = slugForItem (catalog ! i)
        \<and> entry_name (manifest_items manifest ! i) = slugForItem (catalog ! i)
        \<and> map entry_file_path (entry_files (manifest_items manifest ! i))
            = map file_path (exported_files (docs ! i))
        \<and> map file_path (exported_files (docs ! i))
            = map (\<lambda>f. ''registry/chris-lally/'' @ slugForItem (catalog ! i) @ ''/'' @ target f)
                (files (catalog ! i)))
    \<and> node_at (snd (exportCatalog stringify engine moduleDir catalog w outDir))
          (resolve (process_cwd w) [outDir, ''registry.json''])
        = Some (File (stringify (ManifestDocument manifest) @ [CHR 0x0A]))
    \<and> (distinct (map slugForItem catalog) \<and> ''registry'' \<notin> set (map slugForItem catalog) \<longrightarrow>
          distinct (map fst (drop (length (writes w))
             (writes (snd (exportCatalog stringify engine moduleDir catalog w outDir)))))
        \<and> (\<forall>i < length catalog.
             node_at (snd (exportCatalog stringify engine moduleDir catalog w outDir))
                (resolve (process_cwd w) [outDir, slugForItem (catalog ! i) @ ''.json''])
              = Some (File (stringify (ItemDocument (docs ! i)) @ [CHR 0x0A])))))
      \<and> (\<forall>(p, c) \<in> set (drop (length (writes w)) (writes (snd (exportCatalog stringify engine moduleDir catalog w outDir)))).
            is_file (node_at (snd (exportCatalog stringify engine moduleDir catalog w outDir)) p)))"
proof (intro conjI impI)
  assume "export_ready moduleDir catalog w outDir"
  then show "fst (exportCatalog stringify engine moduleDir catalog w outDir) = Inr ()"
    by (rule exportCatalog_succeeds)
next
  assume run: "fst (exportCatalog stringify engine moduleDir catalog w outDir) = Inr ()"
  let ?w' = "snd (exportCatalog stringify engine moduleDir catalog w outDir)"
  let ?reg = "resolve (process_cwd w) [outDir, ''registry.json'']"
  from exportCatalog_trace [OF run] obtain docs manifest where
    len: "length docs = length catalog"
    and log: "writes ?w'
        = writes w
          @ map (\<lambda>(item, doc). (resolve (process_cwd w) [outDir, slugForItem item @ ''.json''],
                                  stringify (ItemDocument doc) @ [CHR 0x0A])) (zip catalog docs)
          @ [(?reg, stringify (ManifestDocument manifest) @ [CHR 0x0A])]"
    and entries: "length (manifest_items manifest) = length catalog"
    and each: "\<forall>i < length catalog.
          exported_name (docs ! i) = slugForItem (catalog ! i)
        \<and> entry_name (manifest_items manifest ! i) = slugForItem (catalog ! i)
        \<and> map entry_file_path (entry_files (manifest_items manifest ! i))
            = map file_path (exported_files (docs ! i))
        \<and> map file_path (exported_files (docs ! i))
            = map (\<lambda>f. ''registry/chris-lally/'' @ slugForItem (catalog ! i) @ ''/'' @ target f)
                (files (catalog ! i))"
    and reg: "node_at ?w' ?reg = Some (File (stringify (ManifestDocument manifest) @ [CHR 0x0A]))"
    by blast
  let ?new = "map (\<lambda>(item, doc). (resolve (process_cwd w) [outDir, slugForItem item @ ''.json''],
                                  stringify (ItemDocument doc) @ [CHR 0x0A])) (zip catalog docs)"
  have dr: "drop (length (writes w)) (writes ?w')
      = ?new @ [(?reg, stringify (ManifestDocument manifest) @ [CHR 0x0A])]"
    by (simp add: log)
  have paths: "map fst ?new
      = map (\<lambda>item. resolve (process_cwd w) [outDir, slugForItem item @ ''.json'']) catalog"
    using len by (intro nth_equalityI) simp_all
  have final: "distinct (map fst (drop (length (writes w)) (writes ?w')))
        \<and> (\<forall>i < length catalog.
             node_at ?w' (resolve (process_cwd w) [outDir, slugForItem (catalog ! i) @ ''.json''])
              = Some (File (stringify (ItemDocument (docs ! i)) @ [CHR 0x0A])))"
    if slugs: "distinct (map slugForItem catalog) \<and> ''registry'' \<notin> set (map slugForItem catalog)"
  proof
    from slugs have "distinct (map (\<lambda>item. resolve (process_cwd w) [outDir, slugForItem item @ ''.json'']) catalog
                   @ [?reg])"
      by (intro export_paths_distinct) simp_all
    then show dist: "distinct (map fst (drop (length (writes w)) (writes ?w')))"
      unfolding dr by (simp add: paths del: map_map)
    note holds = exportCatalog_contents [OF run dist]
    show "\<forall>i < length catalog.
             node_at ?w' (resolve (process_cwd w) [outDir, slugForItem (catalog ! i) @ ''.json''])
              = Some (File (stringify (ItemDocument (docs ! i)) @ [CHR 0x0A]))"
    proof (intro allI impI)
      fix i assume i: "i < length catalog"
      with len have "?new ! i = (resolve (process_cwd w) [outDir, slugForItem (catalog ! i) @ ''.json''],
                                 stringify (ItemDocument (docs ! i)) @ [CHR 0x0A])"
        by simp
      moreover from i len have "?new ! i \<in> set ?new"
        by (intro nth_mem) simp
      ultimately have "(resolve (process_cwd w) [outDir, slugForItem (catalog ! i) @ ''.json''],
                                 stringify (ItemDocument (docs ! i)) @ [CHR 0x0A])
          \<in> set (drop (length (writes w)) (writes ?w'))"
        unfolding dr by simp
      with holds show "node_at ?w' (resolve (process_cwd w) [outDir, slugForItem (catalog ! i) @ ''.json''])
              = Some (File (stringify (ItemDocument (docs ! i)) @ [CHR 0x0A]))"
        by blast
    qed
  qed
  from len log entries each reg final
  show \<open>\<exists>docs manifest.
      length docs = length catalog
    \<and> writes (snd (exportCatalog stringify engine moduleDir catalog w outDir))
        = writes w
          @ map (\<lambda>(item, doc). (resolve (process_cwd w) [outDir, slugForItem item @ ''.json''],
                                  stringify (ItemDocument doc) @ [CHR 0x0A])) (zip catalog docs)
          @ [(resolve (process_cwd w) [outDir, ''registry.json''],
              stringify (ManifestDocument manifest) @ [CHR 0x0A])]
    \<and> length (manifest_items manifest) = length catalog
    \<and> (\<forall>i < length catalog.
          exported_name (docs ! i) = slugForItem (catalog ! i)
        \<and> entry_name (manifest_items manifest ! i) = slugForItem (catalog ! i)
        \<and> map entry_file_path (entry_files (manifest_items manifest ! i))
            = map file_path (exported_files (docs ! i))
        \<and> map file_path (exported_files (docs ! i))
            = map (\<lambda>f. ''registry/chris-lally/'' @ slugForItem (catalog ! i) @ ''/'' @ target f)
                (files (catalog ! i)))
    \<and> node_at (snd (exportCatalog stringify engine moduleDir catalog w outDir))
          (resolve (process_cwd w) [outDir, ''registry.json''])
        = Some (File (stringify (ManifestDocument manifest) @ [CHR 0x0A]))
    \<and> (distinct (map slugForItem catalog) \<and> ''registry'' \<notin> set (map slugForItem catalog) \<longrightarrow>
          distinct (map fst (drop (length (writes w))
             (writes (snd (exportCatalog stringify engine moduleDir catalog w outDir)))))
        \<and> (\<forall>i < length catalog.
             node_at (snd (exportCatalog stringify engine moduleDir catalog w outDir))
                (resolve (process_cwd w) [outDir, slugForItem (catalog ! i) @ ''.json''])
              = Some (File (stringify (ItemDocument (docs ! i)) @ [CHR 0x0A]))))\<close>
    by (intro exI [of _ docs] exI [of _ manifest] conjI impI) blast+
next
  assume run: "fst (exportCatalog stringify engine moduleDir catalog w outDir) = Inr ()"
  then show "\<forall>(p, c) \<in> set (drop (length (writes w)) (writes (snd (exportCatalog stringify engine moduleDir catalog w outDir)))).
            is_file (node_at (snd (exportCatalog stringify engine moduleDir catalog w outDir)) p)"
    by (rule exportCatalog_written_files)
qed

theorem exportCatalog_one_file_per_item_witness:
  "export_ready ''/pkg/dist/registry''
      [\<lparr>item_id = ''demo/card'', namespace = ''demo'', item_name = ''card'',
        description = ''A card.'', dependencies = None, registryDependencies = None,
        files = [\<lparr>source = ''card.tsx'', target = ''components/card.tsx'', replaceImports = None\<rparr>,
                 \<lparr>source = ''use-card.ts'', target = ''hooks/use-card.ts'', replaceImports = None\<rparr>]\<rparr>,
       \<lparr>item_id = ''demo/button'', namespace = ''demo'', item_name = ''button'',
        description = ''A button.'', dependencies = None, registryDependencies = None,
        files = [\<lparr>source = ''button.tsx'', target = ''components/button.tsx'', replaceImports = None\<rparr>]\<rparr>]
      \<lparr>process_cwd = [''proj''],
        nodes = [[''pkg'', ''templates''] \<mapsto> Dir,
                 [''pkg'', ''templates'', ''card.tsx''] \<mapsto> File ''export const Card = 1;'',
                 [''pkg'', ''templates'', ''use-card.ts''] \<mapsto> File ''export {};'',
                 [''pkg'', ''templates'', ''button.tsx''] \<mapsto> File ''export const Button = 2;''],
        writes = []\<rparr> ''public/r''
   \<and> distinct (map slugForItem
      [\<lparr>item_id = ''demo/card'', namespace = ''demo'', item_name = ''card'',
        description = ''A card.'', dependencies = None, registryDependencies = None,
        files = [\<lparr>source = ''card.tsx'', target = ''components/card.tsx'', replaceImports = None\<rparr>,
                 \<lparr>source = ''use-card.ts'', target = ''hooks/use-card.ts'', replaceImports = None\<rparr>]\<rparr>,
       \<lparr>item_id = ''demo/button'', namespace = ''demo'', item_name = ''button'',
        description = ''A button.'', dependencies = None, registryDependencies = None,
        files = [\<lparr>source = ''button.tsx'', target = ''components/button.tsx'', replaceImports = None\<rparr>]\<rparr>])
   \<and> ''registry'' \<notin> set (map slugForItem
      [\<lparr>item_id = ''demo/card'', namespace = ''demo'', item_name = ''card'',
        description = ''A card.'', dependencies = None, registryDependencies = None,
        files = [\<lparr>source = ''card.tsx'', target = ''components/card.tsx'', replaceImports = None\<rparr>,
                 \<lparr>source = ''use-card.ts'', target = ''hooks/use-card.ts'', replaceImports = None\<rparr>]\<rparr>,
       \<lparr>item_id = ''demo/button'', namespace = ''demo'', item_name = ''button'',
        description = ''A button.'', dependencies = None, registryDependencies = None,
        files = [\<lparr>source = ''button.tsx'', target = ''components/button.tsx'', replaceImports = None\<rparr>]\<rparr>])
   \<and> fst (exportCatalog (\<lambda>d. case d of ItemDocument doc \<Rightarrow> exported_name doc
                 | ManifestDocument m \<Rightarrow> concat (map entry_name (manifest_items m))) (\<lambda>p s r. Inl SyntaxError) ''/pkg/dist/registry''
      [\<lparr>item_id = ''demo/card'', namespace = ''demo'', item_name = ''card'',
        description = ''A card.'', dependencies = None, registryDependencies = None,
        files = [\<lparr>source = ''card.tsx'', target = ''components/card.tsx'', replaceImports = None\<rparr>,
                 \<lparr>source = ''use-card.ts'', target = ''hooks/use-card.ts'', replaceImports = None\<rparr>]\<rparr>,
       \<lparr>item_id = ''demo/button'', namespace = ''demo'', item_name = ''button'',
        description = ''A button.'', dependencies = None, registryDependencies = None,
        files = [\<lparr>source = ''button.tsx'', target = ''components/button.tsx'', replaceImports = None\<rparr>]\<rparr>]
      \<lparr>process_cwd = [''proj''],
        nodes = [[''pkg'', ''templates''] \<mapsto> Dir,
                 [''pkg'', ''templates'', ''card.tsx''] \<mapsto> File ''export const Card = 1;'',
                 [''pkg'', ''templates'', ''use-card.ts''] \<mapsto> File ''export {};'',
                 [''pkg'', ''templates'', ''button.tsx''] \<mapsto> File ''export const Button = 2;''],
        writes = []\<rparr> ''public/r'') = Inr ()
   \<and> node_at (snd (exportCatalog (\<lambda>d. case d of ItemDocument doc \<Rightarrow> exported_name doc
                 | ManifestDocument m \<Rightarrow> concat (map entry_name (manifest_items m))) (\<lambda>p s r. Inl SyntaxError) ''/pkg/dist/registry''
      [\<lparr>item_id = ''demo/card'', namespace = ''demo'', item_name = ''card'',
        description = ''A card.'', dependencies = None, registryDependencies = None,
        files = [\<lparr>source = ''card.tsx'', target = ''components/card.tsx'', replaceImports = None\<rparr>,
                 \<lparr>source = ''use-card.ts'', target = ''hooks/use-card.ts'', replaceImports = None\<rparr>]\<rparr>,
       \<lparr>item_id = ''demo/button'', namespace = ''demo'', item_name = ''button'',
        description = ''A button.'', dependencies = None, registryDependencies = None,
        files = [\<lparr>source = ''button.tsx'', target = ''components/button.tsx'', replaceImports = None\<rparr>]\<rparr>]
      \<lparr>process_cwd = [''proj''],
        nodes = [[''pkg'', ''templates''] \<mapsto> Dir,
                 [''pkg'', ''templates'', ''card.tsx''] \<mapsto> File ''export const Card = 1;'',
                 [''pkg'', ''templates'', ''use-card.ts''] \<mapsto> File ''export {};'',
                 [''pkg'', ''templates'', ''button.tsx''] \<mapsto> File ''export const Button = 2;''],
        writes = []\<rparr> ''public/r'')) [''proj'', ''public'', ''r'', ''demo-card.json'']
       = Some (File (''demo-card'' @ [CHR 0x0A]))
   \<and> node_at (snd (exportCatalog (\<lambda>d. case d of ItemDocument doc \<Rightarrow> exported_name doc
                 | ManifestDocument m \<Rightarrow> concat (map entry_name (manifest_items m))) (\<lambda>p s r. Inl SyntaxError) ''/pkg/dist/registry''
      [\<lparr>item_id = ''demo/card'', namespace = ''demo'', item_name = ''card'',
        description = ''A card.'', dependencies = None, registryDependencies = None,
        files = [\<lparr>source = ''card.tsx'', target = ''components/card.tsx'', replaceImports = None\<rparr>,
                 \<lparr>source = ''use-card.ts'', target = ''hooks/use-card.ts'', replaceImports = None\<rparr>]\<rparr>,
       \<lparr>item_id = ''demo/button'', namespace = ''demo'', item_name = ''button'',
        description = ''A button.'', dependencies = None, registryDependencies = None,
        files = [\<lparr>source = ''button.tsx'', target = ''components/button.tsx'', replaceImports = None\<rparr>]\<rparr>]
      \<lparr>process_cwd = [''proj''],
        nodes = [[''pkg'', ''templates''] \<mapsto> Dir,
                 [''pkg'', ''templates'', ''card.tsx''] \<mapsto> File ''export const Card = 1;'',
                 [''pkg'', ''templates'', ''use-card.ts''] \<mapsto> File ''export {};'',
                 [''pkg'', ''templates'', ''button.tsx''] \<mapsto> File ''export const Button = 2;''],
        writes = []\<rparr> ''public/r'')) [''proj'', ''public'', ''r'', ''demo-button.json'']
       = Some (File (''demo-button'' @ [CHR 0x0A]))
   \<and> is_file (node_at (snd (exportCatalog (\<lambda>d. case d of ItemDocument doc \<Rightarrow> exported_name doc
                 | ManifestDocument m \<Rightarrow> concat (map entry_name (manifest_items m))) (\<lambda>p s r. Inl SyntaxError) ''/pkg/dist/registry''
      [\<lparr>item_id = ''demo/card'', namespace = ''demo'', item_name = ''card'',
        description = ''A card.'', dependencies = None, registryDependencies = None,
        files = [\<lparr>source = ''card.tsx'', target = ''components/card.tsx'', replaceImports = None\<rparr>,
                 \<lparr>source = ''use-card.ts'', target = ''hooks/use-card.ts'', replaceImports = None\<rparr>]\<rparr>,
       \<lparr>item_id = ''demo/button'', namespace = ''demo'', item_name = ''button'',
        description = ''A button.'', dependencies = None, registryDependencies = None,
        files = [\<lparr>source = ''button.tsx'', target = ''components/button.tsx'', replaceImports = None\<rparr>]\<rparr>]
      \<lparr>process_cwd = [''proj''],
        nodes = [[''pkg'', ''templates''] \<mapsto> Dir,
                 [''pkg'', ''templates'', ''card.tsx''] \<mapsto> File ''export const Card = 1;'',
                 [''pkg'', ''templates'', ''use-card.ts''] \<mapsto> File ''export {};'',
                 [''pkg'', ''templates'', ''button.tsx''] \<mapsto> File ''export const Button = 2;''],
        writes = []\<rparr> ''public/r'')) [''proj'', ''public'', ''r'', ''registry.json''])"
proof -
  let ?catalog = "[\<lparr>item_id = ''demo/card'', namespace = ''demo'', item_name = ''card'',
        description = ''A card.'', dependencies = None, registryDependencies = None,
        files = [\<lparr>source = ''card.tsx'', target = ''components/card.tsx'', replaceImports = None\<rparr>,
                 \<lparr>source = ''use-card.ts'', target = ''hooks/use-card.ts'', replaceImports = None\<rparr>]\<rparr>,
       \<lparr>item_id = ''demo/button'', namespace = ''demo'', item_name = ''button'',
        description = ''A button.'', dependencies = None, registryDependencies = None,
        files = [\<lparr>source = ''button.tsx'', target = ''components/button.tsx'', replaceImports = None\<rparr>]\<rparr>]"
  let ?w = "\<lparr>process_cwd = [''proj''],
        nodes = [[''pkg'', ''templates''] \<mapsto> Dir,
                 [''pkg'', ''templates'', ''card.tsx''] \<mapsto> File ''export const Card = 1;'',
                 [''pkg'', ''templates'', ''use-card.ts''] \<mapsto> File ''export {};'',
                 [''pkg'', ''templates'', ''button.tsx''] \<mapsto> File ''export const Button = 2;''],
        writes = []\<rparr>"
  let ?stringify = "(\<lambda>d. case d of ItemDocument doc \<Rightarrow> exported_name doc
                 | ManifestDocument m \<Rightarrow> concat (map entry_name (manifest_items m)))"
  let ?engine = "(\<lambda>p s r. Inl SyntaxError) :: regexp_engine"
  let ?run = "exportCatalog ?stringify ?engine ''/pkg/dist/registry'' ?catalog ?w ''public/r''"
  have ready: "export_ready ''/pkg/dist/registry'' ?catalog ?w ''public/r''"
    by code_simp
  have slugs: "map slugForItem ?catalog = [''demo-card'', ''demo-button'']"
    by code_simp
  have p0: "resolve [''proj''] [''public/r'', ''demo-card.json''] = [''proj'', ''public'', ''r'', ''demo-card.json'']"
    and p1: "resolve [''proj''] [''public/r'', ''demo-button.json''] = [''proj'', ''public'', ''r'', ''demo-button.json'']"
    and p2: "resolve [''proj''] [''public/r'', ''registry.json''] = [''proj'', ''public'', ''r'', ''registry.json'']"
    by code_simp+
  note inst = exportCatalog_one_file_per_item
    [where moduleDir = "''/pkg/dist/registry''" and outDir = "''public/r''"
       and stringify = ?stringify and engine = ?engine and catalog = ?catalog and w = ?w]
  from ready inst have run: "fst ?run = Inr ()"
    by blast
  have dist: "distinct (map slugForItem ?catalog) \<and> ''registry'' \<notin> set (map slugForItem ?catalog)"
    unfolding slugs by simp
  from inst run dist obtain docs manifest where
    log: "writes (snd ?run)
        = writes ?w
          @ map (\<lambda>(item, doc). (resolve (process_cwd ?w) [''public/r'', slugForItem item @ ''.json''],
                                  ?stringify (ItemDocument doc) @ [CHR 0x0A])) (zip ?catalog docs)
          @ [(resolve (process_cwd ?w) [''public/r'', ''registry.json''],
              ?stringify (ManifestDocument manifest) @ [CHR 0x0A])]"
    and names: "\<forall>i < length ?catalog. exported_name (docs ! i) = slugForItem (?catalog ! i)"
    and final: "\<forall>i < length ?catalog.
             node_at (snd ?run) (resolve (process_cwd ?w) [''public/r'', slugForItem (?catalog ! i) @ ''.json''])
              = Some (File (?stringify (ItemDocument (docs ! i)) @ [CHR 0x0A]))"
    by blast
  from slugs have s0: "slugForItem (?catalog ! 0) = ''demo-card''"
    and s1: "slugForItem (?catalog ! 1) = ''demo-button''"
    by simp_all
  from names final s0 p0
  have at0: "node_at (snd ?run) [''proj'', ''public'', ''r'', ''demo-card.json'']
       = Some (File (''demo-card'' @ [CHR 0x0A]))"
    by (auto dest!: spec [of _ 0])
  from names final s1 p1
  have at1: "node_at (snd ?run) [''proj'', ''public'', ''r'', ''demo-button.json'']
       = Some (File (''demo-button'' @ [CHR 0x0A]))"
    by (auto dest!: spec [of _ 1])
  from inst run
  have "\<forall>(p, c) \<in> set (drop (length (writes ?w)) (writes (snd ?run))). is_file (node_at (snd ?run) p)"
    by blast
  with log p2 have at2: "is_file (node_at (snd ?run) [''proj'', ''public'', ''r'', ''registry.json''])"
    by simp
  from ready dist run at0 at1 at2 show ?thesis
    by blast
qed

text \<open>
  C3, as stated, fails: the slug replaces every \<^verbatim>\<open>/\<close> of the id by \<^verbatim>\<open>-\<close>, so the items
  \<^verbatim>\<open>a/b-c\<close> and \<^verbatim>\<open>a-b/c\<close> share the slug \<^verbatim>\<open>a-b-c\<close>. The export returns normally, writes
  both documents to \<^verbatim>\<open>a-b-c.json\<close>, and the file holds the second one afterwards: the
  first entry of the manifest lists \<^verbatim>\<open>components/card.tsx\<close>, a path that the file does not
  have. Likewise the document of an item whose slug is \<^verbatim>\<open>registry\<close> is overwritten by the
  manifest. The documents are rendered here by their file paths.
\<close>

theorem exportCatalog_slug_collision_counterexample:
  "map item_id
      [\<lparr>item_id = ''a/b-c'', namespace = ''a'', item_name = ''b-c'',
        description = ''First.'', dependencies = None, registryDependencies = None,
        files = [\<lparr>source = ''card.tsx'', target = ''components/card.tsx'', replaceImports = None\<rparr>]\<rparr>,
       \<lparr>item_id = ''a-b/c'', namespace = ''a-b'', item_name = ''c'',
        description = ''Second.'', dependencies = None, registryDependencies = None,
        files = [\<lparr>source = ''util.ts'', target = ''lib/util.ts'', replaceImports = None\<rparr>]\<rparr>]
     = [''a/b-c'', ''a-b/c'']
   \<and> fst (exportCatalog
        (\<lambda>d. case d of
            ItemDocument doc \<Rightarrow> concat (map (\<lambda>f. file_path f @ '';'') (exported_files doc))
          | ManifestDocument m \<Rightarrow>
              concat (map (\<lambda>e. concat (map (\<lambda>f. entry_file_path f @ '';'') (entry_files e)) @ ''|'')
                        (manifest_items m)))
        (\<lambda>p s r. Inl SyntaxError) ''/pkg/dist/registry''
      [\<lparr>item_id = ''a/b-c'', namespace = ''a'', item_name = ''b-c'',
        description = ''First.'', dependencies = None, registryDependencies = None,
        files = [\<lparr>source = ''card.tsx'', target = ''components/card.tsx'', replaceImports = None\<rparr>]\<rparr>,
       \<lparr>item_id = ''a-b/c'', namespace = ''a-b'', item_name = ''c'',
        description = ''Second.'', dependencies = None, registryDependencies = None,
        files = [\<lparr>source = ''util.ts'', target = ''lib/util.ts'', replaceImports = None\<rparr>]\<rparr>]
      \<lparr>process_cwd = [''proj''],
        nodes = [[''pkg'', ''templates''] \<mapsto> Dir,
                 [''pkg'', ''templates'', ''card.tsx''] \<mapsto> File ''export const Card = 1;'',
                 [''pkg'', ''templates'', ''util.ts''] \<mapsto> File ''export {};''],
        writes = []\<rparr> ''public/r'') = Inr ()
   \<and> map fst (writes (snd (exportCatalog
        (\<lambda>d. case d of
            ItemDocument doc \<Rightarrow> concat (map (\<lambda>f. file_path f @ '';'') (exported_files doc))
          | ManifestDocument m \<Rightarrow>
              concat (map (\<lambda>e. concat (map (\<lambda>f. entry_file_path f @ '';'') (entry_files e)) @ ''|'')
                        (manifest_items m)))
        (\<lambda>p s r. Inl SyntaxError) ''/pkg/dist/registry''
      [\<lparr>item_id = ''a/b-c'', namespace = ''a'', item_name = ''b-c'',
        description = ''First.'', dependencies = None, registryDependencies = None,
        files = [\<lparr>source = ''card.tsx'', target = ''components/card.tsx'', replaceImports = None\<rparr>]\<rparr>,
       \<lparr>item_id = ''a-b/c'', namespace = ''a-b'', item_name = ''c'',
        description = ''Second.'', dependencies = None, registryDependencies = None,
        files = [\<lparr>source = ''util.ts'', target = ''lib/util.ts'', replaceImports = None\<rparr>]\<rparr>]
      \<lparr>process_cwd = [''proj''],
        nodes = [[''pkg'', ''templates''] \<mapsto> Dir,
                 [''pkg'', ''templates'', ''card.tsx''] \<mapsto> File ''export const Card = 1;'',
                 [''pkg'', ''templates'', ''util.ts''] \<mapsto> File ''export {};''],
        writes = []\<rparr> ''public/r'')))
     = [[''proj'', ''public'', ''r'', ''a-b-c.json''],
        [''proj'', ''public'', ''r'', ''a-b-c.json''],
        [''proj'', ''public'', ''r'', ''registry.json'']]
   \<and> node_at (snd (exportCatalog
        (\<lambda>d. case d of
            ItemDocument doc \<Rightarrow> concat (map (\<lambda>f. file_path f @ '';'') (exported_files doc))
          | ManifestDocument m \<Rightarrow>
              concat (map (\<lambda>e. concat (map (\<lambda>f. entry_file_path f @ '';'') (entry_files e)) @ ''|'')
                        (manifest_items m)))
        (\<lambda>p s r. Inl SyntaxError) ''/pkg/dist/registry''
      [\<lparr>item_id = ''a/b-c'', namespace = ''a'', item_name = ''b-c'',
        description = ''First.'', dependencies = None, registryDependencies = None,
        files = [\<lparr>source = ''card.tsx'', target = ''components/card.tsx'', replaceImports = None\<rparr>]\<rparr>,
       \<lparr>item_id = ''a-b/c'', namespace = ''a-b'', item_name = ''c'',
        description = ''Second.'', dependencies = None, registryDependencies = None,
        files = [\<lparr>source = ''util.ts'', target = ''lib/util.ts'', replaceImports = None\<rparr>]\<rparr>]
      \<lparr>process_cwd = [''proj''],
        nodes = [[''pkg'', ''templates''] \<mapsto> Dir,
                 [''pkg'', ''templates'', ''card.tsx''] \<mapsto> File ''export const Card = 1;'',
                 [''pkg'', ''templates'', ''util.ts''] \<mapsto> File ''export {};''],
        writes = []\<rparr> ''public/r'')) [''proj'', ''public'', ''r'', ''a-b-c.json'']
     = Some (File (''registry/chris-lally/a-b-c/lib/util.ts;'' @ [CHR 0x0A]))
   \<and> node_at (snd (exportCatalog
        (\<lambda>d. case d of
            ItemDocument doc \<Rightarrow> concat (map (\<lambda>f. file_path f @ '';'') (exported_files doc))
          | ManifestDocument m \<Rightarrow>
              concat (map (\<lambda>e. concat (map (\<lambda>f. entry_file_path f @ '';'') (entry_files e)) @ ''|'')
                        (manifest_items m)))
        (\<lambda>p s r. Inl SyntaxError) ''/pkg/dist/registry''
      [\<lparr>item_id = ''a/b-c'', namespace = ''a'', item_name = ''b-c'',
        description = ''First.'', dependencies = None, registryDependencies = None,
        files = [\<lparr>source = ''card.tsx'', target = ''components/card.tsx'', replaceImports = None\<rparr>]\<rparr>,
       \<lparr>item_id = ''a-b/c'', namespace = ''a-b'', item_name = ''c'',
        description = ''Second.'', dependencies = None, registryDependencies = None,
        files = [\<lparr>source = ''util.ts'', target = ''lib/util.ts'', replaceImports = None\<rparr>]\<rparr>]
      \<lparr>process_cwd = [''proj''],
        nodes = [[''pkg'', ''templates''] \<mapsto> Dir,
                 [''pkg'', ''templates'', ''card.tsx''] \<mapsto> File ''export const Card = 1;'',
                 [''pkg'', ''templates'', ''util.ts''] \<mapsto> File ''export {};''],
        writes = []\<rparr> ''public/r'')) [''proj'', ''public'', ''r'', ''registry.json'']
     = Some (File (''registry/chris-lally/a-b-c/components/card.tsx;|registry/chris-lally/a-b-c/lib/util.ts;|''
                   @ [CHR 0x0A]))
   \<and> fst (exportCatalog
        (\<lambda>d. case d of
            ItemDocument doc \<Rightarrow> concat (map (\<lambda>f. file_path f @ '';'') (exported_files doc))
          | ManifestDocument m \<Rightarrow>
              concat (map (\<lambda>e. concat (map (\<lambda>f. entry_file_path f @ '';'') (entry_files e)) @ ''|'')
                        (manifest_items m)))
        (\<lambda>p s r. Inl SyntaxError) ''/pkg/dist/registry''
      [\<lparr>item_id = ''registry'', namespace = ''demo'', item_name = ''registry'',
        description = ''Third.'', dependencies = None, registryDependencies = None,
        files = [\<lparr>source = ''card.tsx'', target = ''components/card.tsx'', replaceImports = None\<rparr>]\<rparr>]
      \<lparr>process_cwd = [''proj''],
        nodes = [[''pkg'', ''templates''] \<mapsto> Dir,
                 [''pkg'', ''templates'', ''card.tsx''] \<mapsto> File ''export const Card = 1;'',
                 [''pkg'', ''templates'', ''util.ts''] \<mapsto> File ''export {};''],
        writes = []\<rparr> ''public/r'') = Inr ()
   \<and> writes (snd (exportCatalog
        (\<lambda>d. case d of
            ItemDocument doc \<Rightarrow> concat (map (\<lambda>f. file_path f @ '';'') (exported_files doc))
          | ManifestDocument m \<Rightarrow>
              concat (map (\<lambda>e. concat (map (\<lambda>f. entry_file_path f @ '';'') (entry_files e)) @ ''|'')
                        (manifest_items m)))
        (\<lambda>p s r. Inl SyntaxError) ''/pkg/dist/registry''
      [\<lparr>item_id = ''registry'', namespace = ''demo'', item_name = ''registry'',
        description = ''Third.'', dependencies = None, registryDependencies = None,
        files = [\<lparr>source = ''card.tsx'', target = ''components/card.tsx'', replaceImports = None\<rparr>]\<rparr>]
      \<lparr>process_cwd = [''proj''],
        nodes = [[''pkg'', ''templates''] \<mapsto> Dir,
                 [''pkg'', ''templates'', ''card.tsx''] \<mapsto> File ''export const Card = 1;'',
                 [''pkg'', ''templates'', ''util.ts''] \<mapsto> File ''export {};''],
        writes = []\<rparr> ''public/r''))
     = [([''proj'', ''public'', ''r'', ''registry.json''],
         ''registry/chris-lally/registry/components/card.tsx;'' @ [CHR 0x0A]),
        ([''proj'', ''public'', ''r'', ''registry.json''],
         ''registry/chris-lally/registry/components/card.tsx;|'' @ [CHR 0x0A])]
   \<and> node_at (snd (exportCatalog
        (\<lambda>d. case d of
            ItemDocument doc \<Rightarrow> concat (map (\<lambda>f. file_path f @ '';'') (exported_files doc))
          | ManifestDocument m \<Rightarrow>
              concat (map (\<lambda>e. concat (map (\<lambda>f. entry_file_path f @ '';'') (entry_files e)) @ ''|'')
                        (manifest_items m)))
        (\<lambda>p s r. Inl SyntaxError) ''/pkg/dist/registry''
      [\<lparr>item_id = ''registry'', namespace = ''demo'', item_name = ''registry'',
        description = ''Third.'', dependencies = None, registryDependencies = None,
        files = [\<lparr>source = ''card.tsx'', target = ''components/card.tsx'', replaceImports = None\<rparr>]\<rparr>]
      \<lparr>process_cwd = [''proj''],
        nodes = [[''pkg'', ''templates''] \<mapsto> Dir,
                 [''pkg'', ''templates'', ''card.tsx''] \<mapsto> File ''export const Card = 1;'',
                 [''pkg'', ''templates'', ''util.ts''] \<mapsto> File ''export {};''],
        writes = []\<rparr> ''public/r'')) [''proj'', ''public'', ''r'', ''registry.json'']
     = Some (File (''registry/chris-lally/registry/components/card.tsx;|'' @ [CHR 0x0A]))"
  by code_simp

lemma exportItems_stops_at:
  assumes "k < length catalog" and "f \<in> set (files (catalog ! k))"
    and "exportItems stringify engine tr outDir w (take k catalog) [] = (r1, w1)"
    and "\<not> is_file (node_at w1 (resolve (process_cwd w1) [tr, source f]))"
  shows "\<exists>e. exportItems stringify engine tr outDir w catalog [] = (Inl e, w1)"
proof -
  have split: "catalog = take k catalog @ (catalog ! k) # drop (Suc k) catalog"
    using assms(1) by (simp add: id_take_nth_drop)
  have "\<exists>e. readTemplateContent engine w1 tr (catalog ! k) = Inl e"
    unfolding readTemplateContent_def
    using assms(2,4) by (rule readTemplateFiles_missing)
  then obtain e0 where e0: "readTemplateContent engine w1 tr (catalog ! k) = Inl e0" by blast
  have "exportItems stringify engine tr outDir w
          (take k catalog @ (catalog ! k) # drop (Suc k) catalog) []
        = (case r1 of Inl e \<Rightarrow> (Inl e, w1) | Inr acc \<Rightarrow> (Inl e0, w1))"
    by (cases r1) (simp_all add: exportItems_append assms(3) e0)
  then have "\<exists>e. exportItems stringify engine tr outDir w
          (take k catalog @ (catalog ! k) # drop (Suc k) catalog) [] = (Inl e, w1)"
    by (cases r1) simp_all
  then show ?thesis
    by (simp only: split [symmetric])
qed

text \<open>
  C4: when the source of some file of some item is not a regular file under the template
  root at the time the item is exported, that is after the items before it in the catalog,
  \<open>exportCatalog\<close> ends with an error, and all it has written are documents of items
  before that item: the aggregate manifest is not written.
\<close>

theorem exportCatalog_missing_source:
  assumes "k < length catalog"
    and "f \<in> set (files (catalog ! k))"
    and "\<not> is_file (node_at
           (snd (exportItems stringify engine
                   (path_string (resolve (process_cwd w) [moduleDir, ''../../templates'']))
                   outDir w (take k catalog) []))
           (resolve (process_cwd w)
              [path_string (resolve (process_cwd w) [moduleDir, ''../../templates'']), source f]))"
  shows "(\<exists>e. fst (exportCatalog stringify engine moduleDir catalog w outDir) = Inl e)
    \<and> (\<exists>docs. length docs \<le> k
          \<and> writes (snd (exportCatalog stringify engine moduleDir catalog w outDir))
              = writes w
                @ map (\<lambda>(item, doc). (resolve (process_cwd w) [outDir, slugForItem item @ ''.json''],
                                        stringify (ItemDocument doc) @ [CHR 0x0A])) (zip catalog docs))"
proof (cases "existsSync w (resolve (process_cwd w) [moduleDir, ''../../templates''])")
  case False
  then have "exportCatalog stringify engine moduleDir catalog w outDir
      = (Inl (Error (''Missing templates directory: ''
            @ path_string (resolve (process_cwd w) [moduleDir, ''../../templates'']))), w)"
    by (simp add: exportCatalog_def Let_def)
  then show ?thesis by (intro conjI exI [of _ "[]"]) simp_all
next
  case True
  let ?tr = "path_string (resolve (process_cwd w) [moduleDir, ''../../templates''])"
  obtain r1 w1 where pre: "exportItems stringify engine ?tr outDir w (take k catalog) [] = (r1, w1)"
    by (cases "exportItems stringify engine ?tr outDir w (take k catalog) []") auto
  from exportItems_trace [OF pre] assms(1) obtain fss where fss:
    "length fss \<le> k"
    "process_cwd w1 = process_cwd w"
    "writes w1 = writes w @ map (itemWrite stringify (process_cwd w) outDir) (zip (take k catalog) fss)"
    by auto
  have "\<not> is_file (node_at w1 (resolve (process_cwd w1) [?tr, source f]))"
    using assms(3) pre fss(2) by simp
  with assms(1,2) pre
  have "\<exists>e. exportItems stringify engine ?tr outDir w catalog [] = (Inl e, w1)"
    by (rule exportItems_stops_at)
  then obtain e where "exportCatalog stringify engine moduleDir catalog w outDir = (Inl e, w1)"
    using True by (auto simp: exportCatalog_def Let_def)
  moreover have "zip (take k catalog) fss = zip catalog fss"
    using fss(1) by (rule zip_take_short)
  moreover have "map (itemWrite stringify (process_cwd w) outDir) (zip catalog fss)
      = map (\<lambda>(item, doc). (resolve (process_cwd w) [outDir, slugForItem item @ ''.json''],
                                  stringify (ItemDocument doc) @ [CHR 0x0A]))
          (zip catalog (map (\<lambda>(item, fs). exportedItem item fs) (zip catalog fss)))"
    by (intro nth_equalityI) (simp_all add: itemWrite_def)
  ultimately show ?thesis
    using fss(1,3)
    by (intro conjI exI [of _ e] exI [of _ "map (\<lambda>(item, fs). exportedItem item fs) (zip catalog fss)"])
       simp_all
qed

theorem exportCatalog_missing_source_witness:
  "fst (exportCatalog (\<lambda>d. ''{}'') (\<lambda>p s r. Inl SyntaxError) ''/pkg/dist/registry''
      [\<lparr>item_id = ''demo/card'', namespace = ''demo'', item_name = ''card'',
        description = ''A card.'', dependencies = None, registryDependencies = None,
        files = [\<lparr>source = ''card.tsx'', target = ''components/card.tsx'', replaceImports = None\<rparr>,
                 \<lparr>source = ''use-card.ts'', target = ''hooks/use-card.ts'', replaceImports = None\<rparr>]\<rparr>]
      \<lparr>process_cwd = [''proj''],
        nodes = [[''pkg'', ''templates''] \<mapsto> Dir,
                 [''pkg'', ''templates'', ''card.tsx''] \<mapsto> File ''export const Card = 1;''],
        writes = []\<rparr> ''public/r'')
     = Inl (Error ''Missing template source for registry export: /pkg/templates/use-card.ts'')
   \<and> writes (snd (exportCatalog (\<lambda>d. ''{}'') (\<lambda>p s r. Inl SyntaxError) ''/pkg/dist/registry''
      [\<lparr>item_id = ''demo/card'', namespace = ''demo'', item_name = ''card'',
        description = ''A card.'', dependencies = None, registryDependencies = None,
        files = [\<lparr>source = ''card.tsx'', target = ''components/card.tsx'', replaceImports = None\<rparr>,
                 \<lparr>source = ''use-card.ts'', target = ''hooks/use-card.ts'', replaceImports = None\<rparr>]\<rparr>]
      \<lparr>process_cwd = [''proj''],
        nodes = [[''pkg'', ''templates''] \<mapsto> Dir,
                 [''pkg'', ''templates'', ''card.tsx''] \<mapsto> File ''export const Card = 1;''],
        writes = []\<rparr> ''public/r'')) = []"
proof -
  have h1: "0 < length [\<lparr>item_id = ''demo/card'', namespace = ''demo'', item_name = ''card'',
        description = ''A card.'', dependencies = None, registryDependencies = None,
        files = [\<lparr>source = ''card.tsx'', target = ''components/card.tsx'', replaceImports = None\<rparr>,
                 \<lparr>source = ''use-card.ts'', target = ''hooks/use-card.ts'', replaceImports = None\<rparr>]\<rparr>]"
    by simp
  have h2: "\<lparr>source = ''use-card.ts'', target = ''hooks/use-card.ts'', replaceImports = None\<rparr> \<in> set (files ([\<lparr>item_id = ''demo/card'', namespace = ''demo'', item_name = ''card'',
        description = ''A card.'', dependencies = None, registryDependencies = None,
        files = [\<lparr>source = ''card.tsx'', target = ''components/card.tsx'', replaceImports = None\<rparr>,
                 \<lparr>source = ''use-card.ts'', target = ''hooks/use-card.ts'', replaceImports = None\<rparr>]\<rparr>] ! 0))"
    by simp
  have h3: "\<not> is_file (node_at
           (snd (exportItems (\<lambda>d. ''{}'') (\<lambda>p s r. Inl SyntaxError)
                   (path_string (resolve (process_cwd \<lparr>process_cwd = [''proj''],
        nodes = [[''pkg'', ''templates''] \<mapsto> Dir,
                 [''pkg'', ''templates'', ''card.tsx''] \<mapsto> File ''export const Card = 1;''],
        writes = []\<rparr>) [''/pkg/dist/registry'', ''../../templates'']))
                   ''public/r'' \<lparr>process_cwd = [''proj''],
        nodes = [[''pkg'', ''templates''] \<mapsto> Dir,
                 [''pkg'', ''templates'', ''card.tsx''] \<mapsto> File ''export const Card = 1;''],
        writes = []\<rparr>
                   (take 0 [\<lparr>item_id = ''demo/card'', namespace = ''demo'', item_name = ''card'',
        description = ''A card.'', dependencies = None, registryDependencies = None,
        files = [\<lparr>source = ''card.tsx'', target = ''components/card.tsx'', replaceImports = None\<rparr>,
                 \<lparr>source = ''use-card.ts'', target = ''hooks/use-card.ts'', replaceImports = None\<rparr>]\<rparr>]) []))
           (resolve (process_cwd \<lparr>process_cwd = [''proj''],
        nodes = [[''pkg'', ''templates''] \<mapsto> Dir,
                 [''pkg'', ''templates'', ''card.tsx''] \<mapsto> File ''export const Card = 1;''],
        writes = []\<rparr>)
              [path_string (resolve (process_cwd \<lparr>process_cwd = [''proj''],
        nodes = [[''pkg'', ''templates''] \<mapsto> Dir,
                 [''pkg'', ''templates'', ''card.tsx''] \<mapsto> File ''export const Card = 1;''],
        writes = []\<rparr>) [''/pkg/dist/registry'', ''../../templates'']),
               source \<lparr>source = ''use-card.ts'', target = ''hooks/use-card.ts'', replaceImports = None\<rparr>]))"
    by (simp add: is_file_def node_at_def resolve_def path_string_def)
  have ev: "fst (exportCatalog (\<lambda>d. ''{}'') (\<lambda>p s r. Inl SyntaxError) ''/pkg/dist/registry''
      [\<lparr>item_id = ''demo/card'', namespace = ''demo'', item_name = ''card'',
        description = ''A card.'', dependencies = None, registryDependencies = None,
        files = [\<lparr>source = ''card.tsx'', target = ''components/card.tsx'', replaceImports = None\<rparr>,
                 \<lparr>source = ''use-card.ts'', target = ''hooks/use-card.ts'', replaceImports = None\<rparr>]\<rparr>]
      \<lparr>process_cwd = [''proj''],
        nodes = [[''pkg'', ''templates''] \<mapsto> Dir,
                 [''pkg'', ''templates'', ''card.tsx''] \<mapsto> File ''export const Card = 1;''],
        writes = []\<rparr> ''public/r'')
     = Inl (Error ''Missing template source for registry export: /pkg/templates/use-card.ts'')"
    by code_simp
  show ?thesis
    using exportCatalog_missing_source [OF h1 h2 h3] ev by auto
qed

text \<open>
  In particular, a source that is not a regular file when the export starts, and that is
  not one of the documents the export writes, ends the export with an error.
\<close>

lemma exportCatalog_missing_source_initially:
  assumes "item \<in> set catalog" and "f \<in> set (files item)"
    and "\<not> is_file (node_at w (resolve (process_cwd w)
           [path_string (resolve (process_cwd w) [moduleDir, ''../../templates'']), source f]))"
    and "resolve (process_cwd w)
           [path_string (resolve (process_cwd w) [moduleDir, ''../../templates'']), source f]
         \<notin> (\<lambda>item. resolve (process_cwd w) [outDir, slugForItem item @ ''.json'']) ` set catalog"
  shows "\<exists>e. fst (exportCatalog stringify engine moduleDir catalog w outDir) = Inl e"
proof (cases "existsSync w (resolve (process_cwd w) [moduleDir, ''../../templates''])")
  case False
  then show ?thesis by (simp add: exportCatalog_def Let_def)
next
  case True
  let ?tr = "path_string (resolve (process_cwd w) [moduleDir, ''../../templates''])"
  let ?s = "resolve (process_cwd w) [?tr, source f]"
  from assms(1) obtain k where k: "k < length catalog" "catalog ! k = item"
    by (auto simp: in_set_conv_nth)
  obtain r1 w1 where pre: "exportItems stringify engine ?tr outDir w (take k catalog) [] = (r1, w1)"
    by (cases "exportItems stringify engine ?tr outDir w (take k catalog) []") auto
  have cwd: "process_cwd w1 = process_cwd w"
    using exportItems_trace [OF pre] by blast
  have "?s \<notin> (\<lambda>item. resolve (process_cwd w) [outDir, slugForItem item @ ''.json'']) ` set (take k catalog)"
    using assms(4) by (auto dest: in_set_takeD)
  from exportItems_not_file [OF pre assms(3) this]
  have "\<not> is_file (node_at w1 (resolve (process_cwd w1) [?tr, source f]))"
    by (simp add: cwd)
  with k(1) assms(2) pre
  have "\<exists>e. exportItems stringify engine ?tr outDir w catalog [] = (Inl e, w1)"
    unfolding k(2) [symmetric] by (rule exportItems_stops_at)
  then show ?thesis
    using True by (auto simp: exportCatalog_def Let_def)
qed

end
